theory Spec2Isabelle
  imports Main "HOL-Library.Sublist" "HOL-Library.Word"
begin

section \<open>Texts\<close>

text \<open>
  A Python \<open>str\<close> is modelled as a \<open>string\<close>: a list of characters, each one a code
  point below 256.  The three characters the code treats specially are named here.
\<close>

abbreviation LF :: char where "LF \<equiv> CHR 0x0A"
abbreviation CR :: char where "CR \<equiv> CHR 0x0D"
abbreviation BACKSLASH :: char where "BACKSLASH \<equiv> CHR 0x5C"

text \<open>
  \<open>str.replace(old, new)\<close>: the occurrences of \<open>old\<close> are replaced from left to
  right, without overlap.  For an empty \<open>old\<close> Python inserts \<open>new\<close> before every
  character and at the end.
\<close>

function py_replace :: "string \<Rightarrow> string \<Rightarrow> string \<Rightarrow> string" where
  "py_replace old new [] = (if old = [] then new else [])"
| "py_replace old new (c # cs) =
     (if old = [] then new @ concat (map (\<lambda>x. x # new) (c # cs))
      else if prefix old (c # cs) then new @ py_replace old new (drop (length old) (c # cs))
      else c # py_replace old new cs)"
  by pat_completeness auto
termination
  by (relation "measure (\<lambda>(old, new, s). length s)") auto

text \<open>
  The characters \<open>str.strip()\<close> and \<open>str.rstrip()\<close> remove when called without an
  argument: the code points below 256 for which \<open>str.isspace()\<close> holds.
\<close>

definition py_isspace :: "char \<Rightarrow> bool" where
  "py_isspace c =
     (let n = (of_char c :: nat)
      in (9 \<le> n \<and> n \<le> 13) \<or> (28 \<le> n \<and> n \<le> 32) \<or> n = 133 \<or> n = 160)"

definition py_lstrip :: "string \<Rightarrow> string" where
  "py_lstrip s = dropWhile py_isspace s"

definition py_rstrip :: "string \<Rightarrow> string" where
  "py_rstrip s = rev (dropWhile py_isspace (rev s))"

definition py_strip :: "string \<Rightarrow> string" where
  "py_strip s = py_rstrip (py_lstrip s)"

text \<open>\<open>sep.join(xs)\<close>.\<close>

fun py_join :: "string \<Rightarrow> string list \<Rightarrow> string" where
  "py_join sep [] = []"
| "py_join sep [x] = x"
| "py_join sep (x # y # ys) = x @ sep @ py_join sep (y # ys)"

section \<open>Hash normalizer\<close>

text \<open>\<open>normalize_newlines\<close>: first every CR LF pair, then every remaining CR, becomes LF.\<close>

definition normalize_newlines :: "string \<Rightarrow> string" where
  "normalize_newlines text = py_replace [CR] [LF] (py_replace [CR, LF] [LF] text)"

text \<open>\<open>str.encode("utf-8")\<close> on code points below 256: one byte below 128, two bytes above.\<close>

definition utf8_char :: "char \<Rightarrow> 8 word list" where
  "utf8_char c =
     (let n = (of_char c :: nat)
      in if n < 128 then [of_nat n] else [of_nat (192 + n div 64), of_nat (128 + n mod 64)])"

definition utf8_encode :: "string \<Rightarrow> 8 word list" where
  "utf8_encode s = concat (map utf8_char s)"

text \<open>
  \<open>sha256_normalized_text\<close>.  The library function
  \<open>hashlib.sha256(bytes).hexdigest()\<close> is the parameter \<open>sha256_hex\<close>.
\<close>

definition sha256_normalized_text :: "(8 word list \<Rightarrow> string) \<Rightarrow> string \<Rightarrow> string" where
  "sha256_normalized_text sha256_hex text =
     (let normalized = normalize_newlines text in sha256_hex (utf8_encode normalized))"

text \<open>
  The lines of a text: the pieces between its line endings, where a line ending is a
  CR LF pair, a single CR or a single LF.  \<open>convert_line_endings\<close> writes the same lines
  with one line-ending convention throughout.  Both are used only to state what
  "differing in line-ending convention" means.
\<close>

fun text_lines :: "string \<Rightarrow> string list" where
  "text_lines [] = [[]]"
| "text_lines (c # cs) =
     (if c = CR \<and> cs \<noteq> [] \<and> hd cs = LF then [] # text_lines (tl cs)
      else if c = CR \<or> c = LF then [] # text_lines cs
      else (c # hd (text_lines cs)) # tl (text_lines cs))"

definition convert_line_endings :: "string \<Rightarrow> string \<Rightarrow> string" where
  "convert_line_endings ending text = py_join ending (text_lines text)"

section \<open>Exit policy\<close>

record VerificationMismatch =
  path :: string
  expected :: string
  actual :: string

record VerificationResult =
  ok :: bool
  mismatches :: "VerificationMismatch list"

text \<open>
  \<open>decide_exit_code\<close>.  The process environment read by \<open>os.getenv\<close> is the
  parameter \<open>getenv\<close>; an unset variable is \<open>None\<close>.
\<close>

definition decide_exit_code :: "(string \<Rightarrow> string option) \<Rightarrow> VerificationResult \<Rightarrow> int \<times> string" where
  "decide_exit_code getenv result =
     (if ok result then (0, ''Spec verification PASS.'')
      else if getenv ''ALLOW_SPEC_DRIFT'' = Some ''1''
      then (0, ''Spec drift detected, but ALLOW_SPEC_DRIFT=1 so continuing with warning.'')
      else (1, ''Spec drift detected. Set ALLOW_SPEC_DRIFT=1 to bypass.''))"


section \<open>Values and exceptions\<close>

text \<open>
  The values \<open>json.loads\<close> produces.  A dict is an association list (the first
  binding of a key is the dict's value for it); a float is kept as an opaque pair,
  since the code never computes with one.
\<close>

datatype json =
    JNull
  | JBool bool
  | JInt int
  | JFloat int int
  | JStr string
  | JArr "json list"
  | JObj "(string \<times> json) list"

text \<open>
  A raised exception: its class and \<open>str(exc)\<close>.  \<open>NotException\<close> stands for the
  classes that derive from \<open>BaseException\<close> only, which \<open>except Exception\<close> does not
  catch.  \<open>ReError\<close> is \<open>re.error\<close>.
\<close>

datatype exn_class =
    ValueError | KeyError | TypeError | AttributeError | IndexError | RuntimeError
  | FileNotFoundError | ReError | OtherException | NotException

datatype py_exn = Raise exn_class string

fun type_name :: "json \<Rightarrow> string" where
  "type_name JNull = ''NoneType''"
| "type_name (JBool _) = ''bool''"
| "type_name (JInt _) = ''int''"
| "type_name (JFloat _ _) = ''float''"
| "type_name (JStr _) = ''str''"
| "type_name (JArr _) = ''list''"
| "type_name (JObj _) = ''dict''"

text \<open>\<open>str(v)\<close>: a string is itself; the text of any other value is the parameter \<open>repr\<close>.\<close>

fun py_str :: "(json \<Rightarrow> string) \<Rightarrow> json \<Rightarrow> string" where
  "py_str repr (JStr s) = s"
| "py_str repr v = repr v"

text \<open>\<open>d.get(key, default)\<close> and \<open>d[key]\<close> on a dict.\<close>

definition dict_get :: "(string \<times> json) list \<Rightarrow> string \<Rightarrow> json \<Rightarrow> json" where
  "dict_get d key dflt = (case map_of d key of Some v \<Rightarrow> v | None \<Rightarrow> dflt)"

definition dict_item :: "(string \<times> json) list \<Rightarrow> string \<Rightarrow> py_exn + json" where
  "dict_item d key =
     (case map_of d key of
        Some v \<Rightarrow> Inr v
      | None \<Rightarrow> Inl (Raise KeyError ([CHR 0x27] @ key @ [CHR 0x27])))"

text \<open>\<open>key in data\<close> for a string \<open>key\<close>.\<close>

fun py_contains :: "json \<Rightarrow> string \<Rightarrow> py_exn + bool" where
  "py_contains (JObj d) key = Inr (key \<in> set (map fst d))"
| "py_contains (JArr xs) key = Inr (JStr key \<in> set xs)"
| "py_contains (JStr s) key = Inr (sublist key s)"
| "py_contains v key =
     Inl (Raise TypeError (''argument of type '' @ [CHR 0x27] @ type_name v @ [CHR 0x27]
                           @ '' is not iterable''))"

text \<open>The items a \<open>for\<close> loop over a value visits.\<close>

fun py_iter :: "json \<Rightarrow> py_exn + json list" where
  "py_iter (JArr xs) = Inr xs"
| "py_iter (JStr s) = Inr (map (\<lambda>c. JStr [c]) s)"
| "py_iter (JObj d) = Inr (map (\<lambda>kv. JStr (fst kv)) d)"
| "py_iter v =
     Inl (Raise TypeError ([CHR 0x27] @ type_name v @ [CHR 0x27] @ '' object is not iterable''))"

section \<open>Manifest validator\<close>

definition required :: "string list" where
  "required = [''epic'', ''infra_repo'', ''infra_sha'', ''pr_map'', ''canonical_files'']"

text \<open>The list comprehension \<open>[key for key in required if key not in data]\<close>.\<close>

fun missing_keys :: "json \<Rightarrow> string list \<Rightarrow> py_exn + string list" where
  "missing_keys data [] = Inr []"
| "missing_keys data (key # keys) =
     (case py_contains data key of
        Inl e \<Rightarrow> Inl e
      | Inr present \<Rightarrow>
          (case missing_keys data keys of
             Inl e \<Rightarrow> Inl e
           | Inr rest \<Rightarrow> Inr (if present then rest else key # rest)))"

text \<open>\<open>isinstance(path_item, str) and path_item.strip()\<close>, as a truth value.\<close>

fun nonblank_str :: "json \<Rightarrow> bool" where
  "nonblank_str (JStr s) = (py_strip s \<noteq> [])"
| "nonblank_str v = False"

text \<open>
  \<open>load_manifest\<close>, from the parsed file on: \<open>data\<close> is the value
  \<open>json.loads\<close> returned for the manifest file.
\<close>

definition load_manifest :: "json \<Rightarrow> py_exn + (string \<times> json) list" where
  "load_manifest data =
     (case missing_keys data required of
        Inl e \<Rightarrow> Inl e
      | Inr missing \<Rightarrow>
          if missing \<noteq> []
          then Inl (Raise ValueError
                     (''Manifest missing required keys: '' @ py_join '', '' missing))
          else
            (case data of
               JObj d \<Rightarrow>
                 (case dict_get d ''canonical_files'' JNull of
                    JArr canonical_files \<Rightarrow>
                      if canonical_files = []
                      then Inl (Raise ValueError
                                 ''Manifest canonical_files must be a non-empty array'')
                      else if \<not> list_all nonblank_str canonical_files
                      then Inl (Raise ValueError
                                 ''Manifest canonical_files entries must be non-empty strings'')
                      else
                        (case dict_get d ''pr_map'' JNull of
                           JObj _ \<Rightarrow> Inr d
                         | _ \<Rightarrow> Inl (Raise ValueError ''Manifest pr_map must be an object''))
                  | _ \<Rightarrow> Inl (Raise ValueError
                                ''Manifest canonical_files must be a non-empty array''))
             | _ \<Rightarrow>
                 Inl (Raise AttributeError
                       ([CHR 0x27] @ type_name data @ [CHR 0x27]
                        @ '' object has no attribute '' @ [CHR 0x27] @ ''get'' @ [CHR 0x27]))))"

section \<open>Spec lock generator and verifier\<close>

text \<open>The loop of \<open>generate_spec_lock\<close>: the first failing retrieval aborts it.\<close>

fun generate_entries ::
  "(8 word list \<Rightarrow> string) \<Rightarrow> (json \<Rightarrow> string) \<Rightarrow> (string \<Rightarrow> py_exn + string)
    \<Rightarrow> json list \<Rightarrow> json list \<Rightarrow> py_exn + json list" where
  "generate_entries sha256_hex repr content_loader [] canonical_entries = Inr canonical_entries"
| "generate_entries sha256_hex repr content_loader (relpath # rest) canonical_entries =
     (let relpath_str = py_str repr relpath
      in case content_loader relpath_str of
           Inl e \<Rightarrow> Inl e
         | Inr text \<Rightarrow>
             generate_entries sha256_hex repr content_loader rest
               (canonical_entries @
                  [JObj [(''path'', JStr relpath_str),
                         (''sha256'', JStr (sha256_normalized_text sha256_hex text))]]))"

text \<open>
  \<open>generate_spec_lock\<close>.  \<open>utc_now\<close> is the text the clock expression gives when
  \<open>generated_at\<close> is \<open>None\<close>.
\<close>

definition generate_spec_lock ::
  "(8 word list \<Rightarrow> string) \<Rightarrow> (json \<Rightarrow> string) \<Rightarrow> string
    \<Rightarrow> (string \<times> json) list \<Rightarrow> (string \<Rightarrow> py_exn + string)
    \<Rightarrow> string option \<Rightarrow> string \<Rightarrow> string \<Rightarrow> py_exn + (string \<times> json) list" where
  "generate_spec_lock sha256_hex repr utc_now manifest content_loader generated_at
      generator_name generator_version =
     (let generated_at = (case generated_at of None \<Rightarrow> utc_now | Some g \<Rightarrow> g)
      in case dict_item manifest ''canonical_files'' of
           Inl e \<Rightarrow> Inl e
         | Inr files \<Rightarrow>
         (case py_iter files of
           Inl e \<Rightarrow> Inl e
         | Inr relpaths \<Rightarrow>
         (case generate_entries sha256_hex repr content_loader relpaths [] of
           Inl e \<Rightarrow> Inl e
         | Inr canonical_entries \<Rightarrow>
         (case dict_item manifest ''epic'' of
           Inl e \<Rightarrow> Inl e
         | Inr epic \<Rightarrow>
         (case dict_item manifest ''infra_repo'' of
           Inl e \<Rightarrow> Inl e
         | Inr infra_repo \<Rightarrow>
         (case dict_item manifest ''infra_sha'' of
           Inl e \<Rightarrow> Inl e
         | Inr infra_sha \<Rightarrow>
             Inr [(''schema_version'', JInt 1),
                  (''epic'', JStr (py_str repr epic)),
                  (''generated_at'', JStr generated_at),
                  (''infra_repo'', JStr (py_str repr infra_repo)),
                  (''infra_sha'', JStr (py_str repr infra_sha)),
                  (''canonical_files'', JArr canonical_entries),
                  (''generator'', JObj [(''name'', JStr generator_name),
                                        (''version'', JStr generator_version)])]))))))"

text \<open>
  The loop of \<open>verify_spec_lock\<close>; \<open>found\<close> is the list \<open>mismatches\<close> it appends
  to.  An entry that is not a dict has no \<open>get\<close>; that error is raised outside the
  \<open>try\<close>.  The loader acts on the outside world, so the paths it is called with are
  recorded in \<open>calls\<close>, in order, and returned next to the outcome.
\<close>

fun verify_entries ::
  "(8 word list \<Rightarrow> string) \<Rightarrow> (json \<Rightarrow> string) \<Rightarrow> (string \<Rightarrow> py_exn + string)
    \<Rightarrow> json list \<Rightarrow> VerificationMismatch list \<Rightarrow> string list
    \<Rightarrow> string list \<times> (py_exn + VerificationMismatch list)" where
  "verify_entries sha256_hex repr content_loader [] found calls = (calls, Inr found)"
| "verify_entries sha256_hex repr content_loader (JObj entry # rest) found calls =
     (let relpath = py_str repr (dict_get entry ''path'' (JStr []));
          expected_sha = py_str repr (dict_get entry ''sha256'' (JStr []))
      in case content_loader relpath of
           Inl (Raise cls msg) \<Rightarrow>
             if cls = NotException then (calls @ [relpath], Inl (Raise cls msg))
             else verify_entries sha256_hex repr content_loader rest
                    (found @
                       [\<lparr>path = relpath, expected = expected_sha,
                         actual = ''<error: '' @ msg @ ''>''\<rparr>])
                    (calls @ [relpath])
         | Inr text \<Rightarrow>
             (let actual_sha = sha256_normalized_text sha256_hex text
              in if actual_sha \<noteq> expected_sha
                 then verify_entries sha256_hex repr content_loader rest
                        (found @
                           [\<lparr>path = relpath, expected = expected_sha, actual = actual_sha\<rparr>])
                        (calls @ [relpath])
                 else verify_entries sha256_hex repr content_loader rest found
                        (calls @ [relpath])))"
| "verify_entries sha256_hex repr content_loader (entry # rest) found calls =
     (calls,
      Inl (Raise AttributeError
            ([CHR 0x27] @ type_name entry @ [CHR 0x27]
             @ '' object has no attribute '' @ [CHR 0x27] @ ''get'' @ [CHR 0x27])))"

text \<open>
  \<open>verify_spec_lock\<close>: the paths the loader was called with, and the result or the
  exception that ended the call.
\<close>

definition verify_spec_lock ::
  "(8 word list \<Rightarrow> string) \<Rightarrow> (json \<Rightarrow> string) \<Rightarrow> (string \<times> json) list
    \<Rightarrow> (string \<Rightarrow> py_exn + string) \<Rightarrow> string list \<times> (py_exn + VerificationResult)" where
  "verify_spec_lock sha256_hex repr lock_data content_loader =
     (let canonical_entries = dict_get lock_data ''canonical_files'' (JArr [])
      in case py_iter canonical_entries of
           Inl e \<Rightarrow> ([], Inl e)
         | Inr entries \<Rightarrow>
             (case verify_entries sha256_hex repr content_loader entries [] [] of
                (calls, Inl e) \<Rightarrow> (calls, Inl e)
              | (calls, Inr found) \<Rightarrow>
                  (calls, Inr \<lparr>ok = (length found = 0), mismatches = found\<rparr>)))"

text \<open>
  What the specification says one lock entry contributes to the mismatches: nothing
  when the digest of the retrieved text is the stored one, a mismatch with both digests
  when it is not, and a mismatch with an error placeholder when retrieval fails.  This
  definition follows the specification, and is compared with the loop above.
\<close>

definition spec_entry_path :: "(json \<Rightarrow> string) \<Rightarrow> (string \<times> json) list \<Rightarrow> string" where
  "spec_entry_path repr entry = py_str repr (dict_get entry ''path'' (JStr []))"

definition spec_entry_mismatches ::
  "(8 word list \<Rightarrow> string) \<Rightarrow> (json \<Rightarrow> string) \<Rightarrow> (string \<Rightarrow> py_exn + string)
    \<Rightarrow> (string \<times> json) list \<Rightarrow> VerificationMismatch list" where
  "spec_entry_mismatches sha256_hex repr content_loader entry =
     (let p = spec_entry_path repr entry;
          stored = py_str repr (dict_get entry ''sha256'' (JStr []))
      in case content_loader p of
           Inl (Raise cls msg) \<Rightarrow>
             [\<lparr>path = p, expected = stored, actual = ''<error: '' @ msg @ ''>''\<rparr>]
         | Inr text \<Rightarrow>
             if sha256_normalized_text sha256_hex text = stored then []
             else [\<lparr>path = p, expected = stored,
                    actual = sha256_normalized_text sha256_hex text\<rparr>])"

section \<open>Generated block upserter\<close>

text \<open>
  \<open>s.find(needle)\<close>: the offset of the first occurrence of \<open>needle\<close> in \<open>s\<close>.
\<close>

fun find_first :: "string \<Rightarrow> string \<Rightarrow> nat option" where
  "find_first needle [] = (if needle = [] then Some 0 else None)"
| "find_first needle (c # cs) =
     (if prefix needle (c # cs) then Some 0 else map_option Suc (find_first needle cs))"

text \<open>
  \<open>first_at x u\<close>: in \<open>u @ x\<close> there is no occurrence of \<open>x\<close> that starts inside
  \<open>u\<close>, so the first occurrence of \<open>x\<close> in \<open>u @ x\<close> is the one at the end.  It is
  used to describe where \<open>find_first\<close> and the pattern stop.
\<close>

fun first_at :: "string \<Rightarrow> string \<Rightarrow> bool" where
  "first_at x [] = True"
| "first_at x (c # u) = (\<not> prefix x (c # u @ x) \<and> first_at x u)"

text \<open>
  The compiled pattern is the literal \<open>begin\<close>, then \<open>.*?\<close> under \<open>re.DOTALL\<close>, then
  the literal \<open>end\<close> (\<open>re.escape\<close> makes both literals).  \<open>match_here\<close> is a match
  attempt at the start of \<open>s\<close>: \<open>begin\<close> must be a prefix, and the lazy \<open>.*?\<close> stops
  at the first \<open>end\<close> after it; the result is the length of the match.
  \<open>pattern_search\<close> is \<open>pattern.search\<close>: the attempt is made at each position from
  the left, and the first success splits the text into what is before the match, the
  match, and what is after it.
\<close>

definition match_here :: "string \<Rightarrow> string \<Rightarrow> string \<Rightarrow> nat option" where
  "match_here begin_lit end_lit s =
     (if prefix begin_lit s
      then map_option (\<lambda>j. length begin_lit + j + length end_lit)
             (find_first end_lit (drop (length begin_lit) s))
      else None)"

fun pattern_search :: "string \<Rightarrow> string \<Rightarrow> string \<Rightarrow> (string \<times> string \<times> string) option" where
  "pattern_search begin_lit end_lit [] =
     (case match_here begin_lit end_lit [] of
        Some n \<Rightarrow> Some ([], [], [])
      | None \<Rightarrow> None)"
| "pattern_search begin_lit end_lit (c # cs) =
     (case match_here begin_lit end_lit (c # cs) of
        Some n \<Rightarrow> Some ([], take n (c # cs), drop n (c # cs))
      | None \<Rightarrow>
          (case pattern_search begin_lit end_lit cs of
             Some (before, matched, after) \<Rightarrow> Some (c # before, matched, after)
           | None \<Rightarrow> None))"

text \<open>
  The replacement argument of \<open>pattern.sub\<close> is a template, parsed by
  \<open>re._parser.parse_template\<close>.  The tokenizer reads a backslash together with the
  character after it.  A backslash at the very end is the token \<open>Dangling\<close>: the
  tokenizer raises \<open>re.error\<close> when it fetches it, which it does one token ahead.
\<close>

datatype template_token = Lit char | Esc char | Dangling

fun tokenize_template :: "string \<Rightarrow> template_token list" where
  "tokenize_template [] = []"
| "tokenize_template [c] = (if c = BACKSLASH then [Dangling] else [Lit c])"
| "tokenize_template (c # d # ds) =
     (if c = BACKSLASH then Esc d # tokenize_template ds
      else Lit c # tokenize_template (d # ds))"

definition is_digit :: "char \<Rightarrow> bool" where
  "is_digit c = (48 \<le> (of_char c :: nat) \<and> (of_char c :: nat) \<le> 57)"

definition is_octdigit :: "char \<Rightarrow> bool" where
  "is_octdigit c = (48 \<le> (of_char c :: nat) \<and> (of_char c :: nat) \<le> 55)"

definition is_ascii_letter :: "char \<Rightarrow> bool" where
  "is_ascii_letter c =
     ((65 \<le> (of_char c :: nat) \<and> (of_char c :: nat) \<le> 90)
      \<or> (97 \<le> (of_char c :: nat) \<and> (of_char c :: nat) \<le> 122))"

fun is_oct_token :: "template_token \<Rightarrow> bool" where
  "is_oct_token (Lit c) = is_octdigit c"
| "is_oct_token t = False"

fun token_char :: "template_token \<Rightarrow> char" where
  "token_char (Lit c) = c"
| "token_char (Esc c) = c"
| "token_char Dangling = BACKSLASH"

text \<open>The characters of the template a token stands for.\<close>

fun token_text :: "template_token \<Rightarrow> string" where
  "token_text (Lit c) = [c]"
| "token_text (Esc c) = [BACKSLASH, c]"
| "token_text Dangling = [BACKSLASH]"

text \<open>\<open>int(digits, 8)\<close>.\<close>

definition oct_value :: "string \<Rightarrow> nat" where
  "oct_value digits = foldl (\<lambda>acc c. 8 * acc + ((of_char c :: nat) - 48)) 0 digits"

text \<open>The table \<open>ESCAPES\<close>.\<close>

definition escape_char :: "char \<Rightarrow> char option" where
  "escape_char c =
     (if c = CHR ''a'' then Some (CHR 0x07)
      else if c = CHR ''b'' then Some (CHR 0x08)
      else if c = CHR ''f'' then Some (CHR 0x0C)
      else if c = CHR ''n'' then Some LF
      else if c = CHR ''r'' then Some CR
      else if c = CHR ''t'' then Some (CHR 0x09)
      else if c = CHR ''v'' then Some (CHR 0x0B)
      else if c = BACKSLASH then Some BACKSLASH
      else None)"

text \<open>
  \<open>str.isidentifier()\<close> on code points below 256: the first character is a letter or
  an underscore, the others may also be digits or the middle dot.
\<close>

definition id_start :: "char \<Rightarrow> bool" where
  "id_start c =
     (let n = (of_char c :: nat)
      in (65 \<le> n \<and> n \<le> 90) \<or> n = 95 \<or> (97 \<le> n \<and> n \<le> 122)
         \<or> n = 170 \<or> n = 181 \<or> n = 186
         \<or> (192 \<le> n \<and> n \<le> 214) \<or> (216 \<le> n \<and> n \<le> 246) \<or> 248 \<le> n)"

definition id_continue :: "char \<Rightarrow> bool" where
  "id_continue c = (id_start c \<or> is_digit c \<or> (of_char c :: nat) = 183)"

definition is_identifier :: "string \<Rightarrow> bool" where
  "is_identifier name = (name \<noteq> [] \<and> id_start (hd name) \<and> list_all id_continue (tl name))"

text \<open>
  When \<open>int(name)\<close> is zero, on code points below 256: white space around the number is
  skipped, a sign is allowed, and the digits, all \<open>0\<close>, may have single underscores
  between them.
\<close>

definition int_space :: "char \<Rightarrow> bool" where
  "int_space c =
     (let n = (of_char c :: nat)
      in (9 \<le> n \<and> n \<le> 13) \<or> n = 32 \<or> n = 133 \<or> n = 160)"

fun zero_digits :: "string \<Rightarrow> bool" where
  "zero_digits [] = False"
| "zero_digits [c] = (c = CHR ''0'')"
| "zero_digits (c # d # ds) =
     (c = CHR ''0'' \<and> (if d = CHR ''_'' then zero_digits ds else zero_digits (d # ds)))"

definition int_is_zero :: "string \<Rightarrow> bool" where
  "int_is_zero name =
     (let s = rev (dropWhile int_space (rev (dropWhile int_space name)))
      in zero_digits (if s \<noteq> [] \<and> (hd s = CHR ''+'' \<or> hd s = CHR ''-'') then tl s else s))"

text \<open>
  Whether \<open>\g<name>\<close> names group 0, for a name that is not an identifier.  The
  interpreter version decides: from CPython 3.12 on (\<open>py312\<close>) the name must consist of
  ASCII digits; before, \<open>int(name)\<close> is taken.  In both cases only the value 0 is a
  group of this pattern.
\<close>

definition names_group_zero :: "bool \<Rightarrow> string \<Rightarrow> bool" where
  "names_group_zero py312 name =
     (if py312 then name \<noteq> [] \<and> list_all (\<lambda>c. c = CHR ''0'') name else int_is_zero name)"

text \<open>
  The template is expanded for a pattern without groups; \<open>matched\<close> is the whole match,
  which is group 0.  The result is the replacement text or the class of the exception
  raised.
  \<^item> \<open>\g<name>\<close>: a missing \<open><\<close>, \<open>>\<close> or name is an \<open>re.error\<close>, and so is a
    dangling backslash right after the \<open>>\<close>, which the tokenizer has fetched by then.
    An identifier is the name of a group the pattern does not have: \<open>IndexError\<close>.
    Another name must be the number 0; anything else is an \<open>re.error\<close>.
  \<^item> \<open>\0\<close> with up to two more octal digits is the character with that code.
  \<^item> \<open>\d\<close> for another digit: three octal digits are a character code, at most 0o377;
    everything else is a reference to a group from 1 on, which does not exist.
  \<^item> An escape of \<open>ESCAPES\<close> is its character; another ASCII letter is a bad escape;
    any other character stays, with its backslash.
\<close>

function expand_tokens :: "bool \<Rightarrow> string \<Rightarrow> template_token list \<Rightarrow> exn_class + string" where
  "expand_tokens py312 matched [] = Inr []"
| "expand_tokens py312 matched (Dangling # ts) = Inl ReError"
| "expand_tokens py312 matched (Lit c # ts) =
     map_sum id ((#) c) (expand_tokens py312 matched ts)"
| "expand_tokens py312 matched (Esc c # ts) =
     (if c = CHR ''g'' then
        (if ts \<noteq> [] \<and> hd ts = Lit (CHR ''<'') then
           (let name_tokens = takeWhile (\<lambda>t. t \<noteq> Lit (CHR ''>'')) (tl ts);
                name = concat (map token_text name_tokens)
            in if length name_tokens = length (tl ts) \<or> name_tokens = []
                  \<or> take 1 (drop (Suc (length name_tokens)) (tl ts)) = [Dangling]
               then Inl ReError
               else if is_identifier name then Inl IndexError
               else if names_group_zero py312 name
               then map_sum id ((@) matched)
                      (expand_tokens py312 matched (drop (Suc (length name_tokens)) (tl ts)))
               else Inl ReError)
         else Inl ReError)
      else if c = CHR ''0'' then
        (let n = length (takeWhile is_oct_token (take 2 ts))
         in map_sum id ((#) (char_of (oct_value (map token_char (take n ts)))))
              (expand_tokens py312 matched (drop n ts)))
      else if is_digit c then
        (if is_octdigit c \<and> 2 \<le> length ts \<and> list_all is_oct_token (take 2 ts)
              \<and> oct_value (c # map token_char (take 2 ts)) \<le> 255
         then map_sum id ((#) (char_of (oct_value (c # map token_char (take 2 ts)))))
                (expand_tokens py312 matched (drop 2 ts))
         else Inl ReError)
      else
        (case escape_char c of
           Some e \<Rightarrow> map_sum id ((#) e) (expand_tokens py312 matched ts)
         | None \<Rightarrow>
             if is_ascii_letter c then Inl ReError
             else map_sum id (\<lambda>r. BACKSLASH # c # r) (expand_tokens py312 matched ts)))"
  by pat_completeness auto
termination
  by (relation "measure (\<lambda>(py312, matched, ts). length ts)") auto

text \<open>\<open>pattern.sub\<close> with the template; the message of the exception is left empty.\<close>

definition expand_template :: "bool \<Rightarrow> string \<Rightarrow> string \<Rightarrow> py_exn + string" where
  "expand_template py312 template matched =
     (case expand_tokens py312 matched (tokenize_template template) of
        Inl cls \<Rightarrow> Inl (Raise cls [])
      | Inr r \<Rightarrow> Inr r)"

text \<open>
  \<open>upsert_generated_block\<close>; \<open>begin_lit\<close> and \<open>end_lit\<close> are its \<open>begin\<close> and \<open>end\<close>,
  and \<open>py312\<close> says whether the interpreter is CPython 3.12 or later.
\<close>

definition upsert_generated_block ::
  "bool \<Rightarrow> string \<Rightarrow> string \<Rightarrow> string \<Rightarrow> py_exn + string" where
  "upsert_generated_block py312 document_text tag rendered_block =
     (let begin_lit = ''<!-- BEGIN GENERATED: '' @ tag @ '' -->'';
          end_lit = ''<!-- END GENERATED: '' @ tag @ '' -->''
      in case pattern_search begin_lit end_lit document_text of
           Some (before, matched, after) \<Rightarrow>
             (case expand_template py312 rendered_block matched of
                Inl e \<Rightarrow> Inl e
              | Inr replacement \<Rightarrow> Inr (before @ replacement @ after))
         | None \<Rightarrow>
             if py_strip document_text \<noteq> []
             then Inr (py_rstrip document_text @ [LF, LF] @ rendered_block @ [LF])
             else Inr (rendered_block @ [LF]))"

section \<open>Content loader\<close>

text \<open>
  What the loader reaches outside the program: the file system, through \<open>pathlib\<close>, and
  the two network strategies.  \<open>file_text\<close> is what is stored in the file at a path,
  decoded as UTF-8, or the exception that opening or decoding the file raises.
  \<open>gh_api\<close> and \<open>raw_github\<close> are the outcomes of \<open>fetch_via_gh_api\<close> and
  \<open>fetch_via_raw_github\<close> for a repository, a path and a commit; \<open>path_join\<close> is the
  text of \<open>Path(root) / relpath\<close>.
\<close>

record world =
  path_exists :: "string \<Rightarrow> bool"
  path_is_dir :: "string \<Rightarrow> bool"
  file_text :: "string \<Rightarrow> py_exn + string"
  path_join :: "string \<Rightarrow> string \<Rightarrow> string"
  gh_api :: "string \<Rightarrow> string \<Rightarrow> string \<Rightarrow> py_exn + string"
  raw_github :: "string \<Rightarrow> string \<Rightarrow> string \<Rightarrow> py_exn + string"

text \<open>
  \<open>Path.read_text(encoding="utf-8")\<close> opens the file in text mode with the default
  \<open>newline=None\<close>: while reading, every CR LF pair and every other CR is turned into
  LF (\<open>universal_newlines\<close>); nothing else changes.
\<close>

fun universal_newlines :: "string \<Rightarrow> string" where
  "universal_newlines [] = []"
| "universal_newlines (c # cs) =
     (if c = CR \<and> cs \<noteq> [] \<and> hd cs = LF then LF # universal_newlines (tl cs)
      else if c = CR then LF # universal_newlines cs
      else c # universal_newlines cs)"

definition read_text :: "world \<Rightarrow> string \<Rightarrow> py_exn + string" where
  "read_text w p =
     (case file_text w p of
        Inl e \<Rightarrow> Inl e
      | Inr stored \<Rightarrow> Inr (universal_newlines stored))"

text \<open>
  Example file systems with the directory \<open>/docs\<close>: in \<open>empty_docs_world\<close> it holds
  no file; in \<open>docs_world stored\<close> it holds \<open>a.md\<close>, and \<open>stored\<close> is what is stored
  in that file, or the exception that reading it raises.  Both network strategies
  would succeed.
\<close>

definition empty_docs_world :: world where
  "empty_docs_world =
     \<lparr>path_exists = (\<lambda>p. p = ''/docs''), path_is_dir = (\<lambda>p. p = ''/docs''),
      file_text = (\<lambda>p. Inl (Raise FileNotFoundError p)),
      path_join = (\<lambda>r p. r @ ''/'' @ p),
      gh_api = (\<lambda>r p s. Inr ''remote''), raw_github = (\<lambda>r p s. Inr ''remote'')\<rparr>"

definition docs_world :: "py_exn + string \<Rightarrow> world" where
  "docs_world stored =
     \<lparr>path_exists = (\<lambda>p. p = ''/docs'' \<or> p = ''/docs/a.md''),
      path_is_dir = (\<lambda>p. p = ''/docs''),
      file_text = (\<lambda>p. if p = ''/docs/a.md'' then stored
                         else Inl (Raise FileNotFoundError p)),
      path_join = (\<lambda>r p. r @ ''/'' @ p),
      gh_api = (\<lambda>r p s. Inr ''remote''), raw_github = (\<lambda>r p s. Inr ''remote'')\<rparr>"

text \<open>
  Each retrieval the loader attempts is recorded, in order, next to its result.
\<close>

datatype attempt =
    LocalRead string
  | GhApi string string string
  | RawGithub string string string

fun is_network :: "attempt \<Rightarrow> bool" where
  "is_network (LocalRead _) = False"
| "is_network (GhApi _ _ _) = True"
| "is_network (RawGithub _ _ _) = True"

definition read_local_canonical_text ::
  "world \<Rightarrow> string \<Rightarrow> string \<Rightarrow> attempt list \<times> (py_exn + string)" where
  "read_local_canonical_text w infra_docs_root relpath =
     (let p = path_join w infra_docs_root relpath
      in if \<not> path_exists w p
         then ([], Inl (Raise FileNotFoundError (''Canonical file not found at '' @ p)))
         else ([LocalRead p], read_text w p))"

definition load_canonical_text ::
  "world \<Rightarrow> string \<Rightarrow> string \<Rightarrow> string \<Rightarrow> string option
    \<Rightarrow> attempt list \<times> (py_exn + string)" where
  "load_canonical_text w infra_repo infra_sha relpath infra_docs_root =
     (if infra_docs_root \<noteq> None \<and> infra_docs_root \<noteq> Some []
      then
        (let root = the infra_docs_root
         in if \<not> path_exists w root \<or> \<not> path_is_dir w root
            then ([], Inl (Raise RuntimeError
                            (''INFRA_DOCS_ROOT does not point to a valid directory: '' @ root)))
            else read_local_canonical_text w root relpath)
      else
        (case gh_api w infra_repo relpath infra_sha of
           Inr text \<Rightarrow> ([GhApi infra_repo relpath infra_sha], Inr text)
         | Inl (Raise gh_cls gh_error) \<Rightarrow>
             if gh_cls = NotException
             then ([GhApi infra_repo relpath infra_sha], Inl (Raise gh_cls gh_error))
             else
               (case raw_github w infra_repo relpath infra_sha of
                  Inr text \<Rightarrow>
                    ([GhApi infra_repo relpath infra_sha,
                      RawGithub infra_repo relpath infra_sha], Inr text)
                | Inl (Raise raw_cls raw_exc) \<Rightarrow>
                    ([GhApi infra_repo relpath infra_sha,
                      RawGithub infra_repo relpath infra_sha],
                     if raw_cls = NotException then Inl (Raise raw_cls raw_exc)
                     else Inl (Raise RuntimeError
                                (''gh fetch failed ('' @ gh_error @ ''); raw fetch failed (''
                                 @ raw_exc @ '')''))))))"


section \<open>Properties of the hash normalizer and the exit policy\<close>

lemma replace_crlf_Cons:
  "py_replace [CR, LF] [LF] (c # cs) =
     (if c = CR \<and> cs \<noteq> [] \<and> hd cs = LF then LF # py_replace [CR, LF] [LF] (tl cs)
      else c # py_replace [CR, LF] [LF] cs)"
  by (cases cs) auto

lemma replace_cr_Cons:
  "py_replace [CR] [LF] (c # cs) =
     (if c = CR then LF # py_replace [CR] [LF] cs else c # py_replace [CR] [LF] cs)"
  by auto

lemma text_lines_nonempty: "text_lines t \<noteq> []"
  by (induction t rule: text_lines.induct) auto

lemma py_join_Cons: "ls \<noteq> [] \<Longrightarrow> py_join sep (l # ls) = l @ sep @ py_join sep ls"
  by (cases ls) auto

lemma py_join_Cons_hd: "ls \<noteq> [] \<Longrightarrow> py_join sep ((c # hd ls) # tl ls) = c # py_join sep ls"
  by (cases ls; cases "tl ls") auto

lemma normalize_newlines_Nil: "normalize_newlines [] = []"
  by (simp add: normalize_newlines_def)

lemma normalize_newlines_Cons:
  "normalize_newlines (c # cs) =
     (if c = CR \<and> cs \<noteq> [] \<and> hd cs = LF then LF # normalize_newlines (tl cs)
      else if c = CR then LF # normalize_newlines cs
      else c # normalize_newlines cs)"
  unfolding normalize_newlines_def replace_crlf_Cons
  by (simp only: replace_cr_Cons split: if_splits) auto

lemma normalize_text_lines: "normalize_newlines t = py_join [LF] (text_lines t)"
proof (induction t rule: text_lines.induct)
  case 1
  show ?case by (simp add: normalize_newlines_Nil)
next
  case (2 c cs)
  show ?case
  proof (cases "c = CR \<and> cs \<noteq> [] \<and> hd cs = LF")
    case True
    with 2 show ?thesis
      by (simp add: normalize_newlines_Cons py_join_Cons text_lines_nonempty)
  next
    case False
    note nopair = this
    show ?thesis
    proof (cases "c = CR \<or> c = LF")
      case True
      with nopair 2 show ?thesis
        by (auto simp add: normalize_newlines_Cons py_join_Cons text_lines_nonempty)
    next
      case False
      with nopair 2 show ?thesis
        by (simp add: normalize_newlines_Cons py_join_Cons_hd text_lines_nonempty)
    qed
  qed
qed


lemma text_lines_clean: "l \<in> set (text_lines t) \<Longrightarrow> CR \<notin> set l \<and> LF \<notin> set l"
proof (induction t arbitrary: l rule: text_lines.induct)
  case 1
  then show ?case by simp
next
  case (2 c cs)
  show ?case
  proof (cases "c = CR \<and> cs \<noteq> [] \<and> hd cs = LF")
    case True
    with 2 show ?thesis by auto
  next
    case False
    note nopair = this
    show ?thesis
    proof (cases "c = CR \<or> c = LF")
      case True
      with nopair 2 show ?thesis by auto
    next
      case False
      have ne: "text_lines cs \<noteq> []" by (rule text_lines_nonempty)
      from False nopair "2.prems" have "l = c # hd (text_lines cs) \<or> l \<in> set (tl (text_lines cs))"
        by auto
      moreover have "hd (text_lines cs) \<in> set (text_lines cs)" using ne by simp
      moreover have "set (tl (text_lines cs)) \<subseteq> set (text_lines cs)"
        using ne by (cases "text_lines cs") auto
      ultimately show ?thesis using "2.IH"(3)[OF nopair False] False by auto
    qed
  qed
qed

lemma normalize_clean_append:
  "CR \<notin> set x \<Longrightarrow> normalize_newlines (x @ v) = x @ normalize_newlines v"
  by (induction x) (auto simp add: normalize_newlines_Cons)

lemma normalize_clean: "CR \<notin> set x \<Longrightarrow> normalize_newlines x = x"
  using normalize_clean_append [of x "[]"] by (simp add: normalize_newlines_Nil)

lemma py_join_no_LF:
  "\<forall>l \<in> set ls. LF \<notin> set l \<Longrightarrow> LF \<notin> set sep \<Longrightarrow> LF \<notin> set (py_join sep ls)"
  by (induction sep ls rule: py_join.induct) auto

lemma normalize_join:
  assumes "\<forall>l \<in> set ls. CR \<notin> set l \<and> LF \<notin> set l"
    and "sep = [CR, LF] \<or> sep = [CR] \<or> sep = [LF]"
  shows "normalize_newlines (py_join sep ls) = py_join [LF] ls"
  using assms
proof (induction sep ls rule: py_join.induct)
  case (1 sep)
  then show ?case by (simp add: normalize_newlines_Nil)
next
  case (2 sep x)
  then show ?case by (simp add: normalize_clean)
next
  case (3 sep x y ys)
  have ih: "normalize_newlines (py_join sep (y # ys)) = py_join [LF] (y # ys)"
    using 3 by simp
  have x: "CR \<notin> set x" using 3(2) by simp
  have sepnorm: "normalize_newlines (sep @ py_join sep (y # ys)) = LF # py_join [LF] (y # ys)"
  proof -
    consider "sep = [CR, LF]" | "sep = [CR]" | "sep = [LF]" using 3(3) by blast
    then show ?thesis
    proof cases
      case 1
      then show ?thesis using ih by (simp add: normalize_newlines_Cons)
    next
      case 2
      have "LF \<notin> set (py_join sep (y # ys))"
        using 3(2) 2 by (intro py_join_no_LF) auto
      then have "py_join sep (y # ys) \<noteq> [] \<Longrightarrow> hd (py_join sep (y # ys)) \<noteq> LF"
        by (cases "py_join sep (y # ys)") auto
      then show ?thesis using ih 2 by (auto simp add: normalize_newlines_Cons)
    next
      case 3
      then show ?thesis using ih by (simp add: normalize_newlines_Cons)
    qed
  qed
  show ?case using sepnorm x by (simp add: normalize_clean_append)
qed

lemma normalize_convert:
  "sep = [CR, LF] \<or> sep = [CR] \<or> sep = [LF] \<Longrightarrow>
   normalize_newlines (convert_line_endings sep t) = normalize_newlines t"
proof -
  assume sep: "sep = [CR, LF] \<or> sep = [CR] \<or> sep = [LF]"
  have "normalize_newlines (py_join sep (text_lines t)) = py_join [LF] (text_lines t)"
    using text_lines_clean sep by (intro normalize_join) blast+
  then show ?thesis
    by (simp only: convert_line_endings_def normalize_text_lines [of t])
qed

lemma normalize_idem: "normalize_newlines (normalize_newlines t) = normalize_newlines t"
proof -
  have "normalize_newlines (convert_line_endings [LF] t) = normalize_newlines t"
    by (rule normalize_convert) simp
  then show ?thesis
    by (simp only: convert_line_endings_def normalize_text_lines [of t, symmetric])
qed

text \<open>
  Claim C2.  The digest of a text is the digest of its normalized form, and it does not
  change when the lines of the text are written with CR LF, with CR or with LF as the
  line ending throughout; two texts with the same lines have the same digest.
\<close>

theorem digest_line_ending_invariant:
  "sha256_normalized_text H t = sha256_normalized_text H (normalize_newlines t)
   \<and> sha256_normalized_text H (convert_line_endings [CR, LF] t) = sha256_normalized_text H t
   \<and> sha256_normalized_text H (convert_line_endings [CR] t) = sha256_normalized_text H t
   \<and> sha256_normalized_text H (convert_line_endings [LF] t) = sha256_normalized_text H t
   \<and> (text_lines t = text_lines t' \<longrightarrow>
        sha256_normalized_text H t = sha256_normalized_text H t')"
proof -
  have "text_lines t = text_lines t' \<Longrightarrow> normalize_newlines t = normalize_newlines t'"
    by (simp only: normalize_text_lines)
  then show ?thesis
    by (auto simp add: sha256_normalized_text_def normalize_idem normalize_convert)
qed

theorem digest_line_ending_invariant_witness:
  "text_lines [CHR ''a'', CR, LF, CHR ''b'', CR] = text_lines [CHR ''a'', LF, CHR ''b'', LF]
   \<and> [CHR ''a'', CR, LF, CHR ''b'', CR] \<noteq> [CHR ''a'', LF, CHR ''b'', LF]
   \<and> sha256_normalized_text (map (\<lambda>b. char_of (unat b))) [CHR ''a'', CR, LF, CHR ''b'', CR]
     = sha256_normalized_text (map (\<lambda>b. char_of (unat b))) [CHR ''a'', LF, CHR ''b'', LF]"
proof -
  have same: "text_lines [CHR ''a'', CR, LF, CHR ''b'', CR] = text_lines [CHR ''a'', LF, CHR ''b'', LF]"
    by simp
  have diff: "[CHR ''a'', CR, LF, CHR ''b'', CR] \<noteq> [CHR ''a'', LF, CHR ''b'', LF]"
    by simp
  from same digest_line_ending_invariant
    [of "map (\<lambda>b. char_of (unat b))" "[CHR ''a'', CR, LF, CHR ''b'', CR]"
        "[CHR ''a'', LF, CHR ''b'', LF]"]
  have "sha256_normalized_text (map (\<lambda>b. char_of (unat b))) [CHR ''a'', CR, LF, CHR ''b'', CR]
     = sha256_normalized_text (map (\<lambda>b. char_of (unat b))) [CHR ''a'', LF, CHR ''b'', LF]"
    by blast
  with same diff show ?thesis by blast
qed

text \<open>
  Claim C8.  The exit code is 0 when \<open>ok\<close> holds, whatever the environment; when
  \<open>ok\<close> does not hold it is 0 exactly when \<open>ALLOW_SPEC_DRIFT\<close> is set to \<open>1\<close>, and
  1 otherwise.
\<close>

theorem decide_exit_code_policy:
  "fst (decide_exit_code getenv result) =
     (if ok result \<or> getenv ''ALLOW_SPEC_DRIFT'' = Some ''1'' then 0 else 1)"
  by (simp add: decide_exit_code_def)


section \<open>Properties of the verifier\<close>

lemma verify_entries_spec:
  assumes "\<forall>d \<in> set ds. \<forall>msg. loader (spec_entry_path repr d) \<noteq> Inl (Raise NotException msg)"
  shows "verify_entries H repr loader (map JObj ds) found calls =
           (calls @ map (spec_entry_path repr) ds,
            Inr (found @ concat (map (spec_entry_mismatches H repr loader) ds)))"
  using assms
proof (induction ds arbitrary: found calls)
  case Nil
  then show ?case by simp
next
  case (Cons d ds)
  have rest: "\<forall>d \<in> set ds. \<forall>msg. loader (spec_entry_path repr d) \<noteq> Inl (Raise NotException msg)"
    using Cons.prems by simp
  have here: "\<forall>msg. loader (spec_entry_path repr d) \<noteq> Inl (Raise NotException msg)"
    using Cons.prems by simp
  show ?case
  proof (cases "loader (spec_entry_path repr d)")
    case (Inl exn)
    obtain cls msg where exn: "exn = Raise cls msg" by (cases exn) auto
    with Inl here have "cls \<noteq> NotException" by auto
    with Inl exn show ?thesis
      using Cons.IH [OF rest]
      by (simp add: spec_entry_path_def spec_entry_mismatches_def Let_def)
  next
    case (Inr content)
    then show ?thesis
      using Cons.IH [OF rest]
      by (simp add: spec_entry_path_def spec_entry_mismatches_def Let_def)
  qed
qed

text \<open>
  Claim C3.  For a lock record whose \<open>canonical_files\<close> is a list of entry dicts, and
  a loader whose failures are exceptions (\<open>except Exception\<close> catches them), the
  verifier calls the loader for the path of every entry, in order, also after a
  failure.  Each entry contributes what the specification says (\<open>spec_entry_mismatches\<close>):
  a failed retrieval is a mismatch for that path whose \<open>actual\<close> is the placeholder
  \<open><error: ...>\<close>, and the entries after it are checked as they would be alone.
  \<open>ok\<close> holds exactly when there is no mismatch.
\<close>

theorem verify_checks_every_entry:
  assumes "map_of lock_data ''canonical_files'' = Some (JArr (map JObj entries))"
    and "\<forall>d \<in> set entries. \<forall>msg.
           content_loader (spec_entry_path repr d) \<noteq> Inl (Raise NotException msg)"
  shows "verify_spec_lock sha256_hex repr lock_data content_loader =
           (map (spec_entry_path repr) entries,
            Inr \<lparr>ok = (concat (map (spec_entry_mismatches sha256_hex repr content_loader) entries) = []),
                 mismatches = concat (map (spec_entry_mismatches sha256_hex repr content_loader) entries)\<rparr>)"
  using assms(1) verify_entries_spec [OF assms(2), of sha256_hex "[]" "[]"]
  by (simp add: verify_spec_lock_def dict_get_def)

text \<open>
  Claim C10.  When \<open>canonical_files\<close> is absent from the lock record or is the empty
  list, verification passes with no mismatch, for every loader, and the loader is not
  called.
\<close>

theorem verify_empty_lock_passes:
  assumes "map_of lock_data ''canonical_files'' = None
           \<or> map_of lock_data ''canonical_files'' = Some (JArr [])"
  shows "verify_spec_lock sha256_hex repr lock_data content_loader =
           ([], Inr \<lparr>ok = True, mismatches = []\<rparr>)"
  using assms by (auto simp add: verify_spec_lock_def dict_get_def)

theorem verify_empty_lock_passes_witness:
  "verify_spec_lock (\<lambda>bs. replicate (length bs) (CHR ''x'')) (\<lambda>v. ''?'')
     [(''schema_version'', JInt 1), (''canonical_files'', JArr [])]
     (\<lambda>p. Inl (Raise NotException ''interrupted''))
   = ([], Inr \<lparr>ok = True, mismatches = []\<rparr>)"
proof -
  have h: "map_of [(''schema_version'', JInt 1), (''canonical_files'', JArr [])] ''canonical_files'' = None
     \<or> map_of [(''schema_version'', JInt 1), (''canonical_files'', JArr [])] ''canonical_files'' = Some (JArr [])"
    by simp
  show ?thesis by (rule verify_empty_lock_passes [OF h])
qed

theorem verify_checks_every_entry_witness:
  "verify_spec_lock (\<lambda>bs. replicate (length bs) (CHR ''x'')) (\<lambda>v. ''?'')
     [(''canonical_files'',
        JArr [JObj [(''path'', JStr ''a.md''), (''sha256'', JStr ''x'')],
              JObj [(''path'', JStr ''b.md''), (''sha256'', JStr ''xxx'')],
              JObj [(''path'', JStr ''c.md''), (''sha256'', JStr ''x'')]])]
     (\<lambda>p. if p = ''a.md'' then Inl (Raise RuntimeError ''boom'')
          else if p = ''b.md'' then Inr ''Z'' else Inr ''Y'')
   = ([''a.md'', ''b.md'', ''c.md''],
      Inr \<lparr>ok = False,
           mismatches =
             [\<lparr>path = ''a.md'', expected = ''x'', actual = ''<error: boom>''\<rparr>,
              \<lparr>path = ''b.md'', expected = ''xxx'', actual = ''x''\<rparr>]\<rparr>)"
proof -
  let ?entries = "[[(''path'', JStr ''a.md''), (''sha256'', JStr ''x'')],
                   [(''path'', JStr ''b.md''), (''sha256'', JStr ''xxx'')],
                   [(''path'', JStr ''c.md''), (''sha256'', JStr ''x'')]]"
  let ?loader = "\<lambda>p. if p = ''a.md'' then Inl (Raise RuntimeError ''boom'')
          else if p = ''b.md'' then Inr ''Z'' else Inr ''Y''"
  let ?lock = "[(''canonical_files'', JArr (map JObj ?entries))]"
  have h1: "map_of ?lock ''canonical_files'' = Some (JArr (map JObj ?entries))"
    by simp
  have h2: "\<forall>d \<in> set ?entries. \<forall>msg.
           ?loader (spec_entry_path (\<lambda>v. ''?'') d) \<noteq> Inl (Raise NotException msg)"
    by (simp add: spec_entry_path_def dict_get_def)
  show ?thesis
    using verify_checks_every_entry
      [OF h1 h2, of "\<lambda>bs. replicate (length bs) (CHR ''x'')"]
    by (simp add: spec_entry_path_def spec_entry_mismatches_def dict_get_def
          sha256_normalized_text_def normalize_newlines_def utf8_encode_def utf8_char_def)
qed

section \<open>Properties of the manifest validator and the generator\<close>

lemma py_strip_empty_iff: "py_strip s = [] \<longleftrightarrow> (\<forall>c \<in> set s. py_isspace c)"
proof
  assume "py_strip s = []"
  then have "\<forall>c \<in> set (dropWhile py_isspace s). py_isspace c"
    by (simp add: py_strip_def py_rstrip_def py_lstrip_def dropWhile_eq_Nil_conv)
  then have "dropWhile py_isspace s = []"
    using hd_dropWhile [of py_isspace s] hd_in_set [of "dropWhile py_isspace s"] by blast
  then show "\<forall>c \<in> set s. py_isspace c"
    by (simp add: dropWhile_eq_Nil_conv)
next
  assume "\<forall>c \<in> set s. py_isspace c"
  then have "dropWhile py_isspace s = []"
    by (simp add: dropWhile_eq_Nil_conv)
  then show "py_strip s = []"
    unfolding py_strip_def py_rstrip_def py_lstrip_def
    by (simp only: dropWhile.simps rev.simps)
qed

lemma missing_keys_dict:
  "missing_keys (JObj d) keys = Inr (filter (\<lambda>k. k \<notin> set (map fst d)) keys)"
  by (induction keys) auto

lemma map_of_present: "k \<in> set (map fst d) \<Longrightarrow> \<exists>v. map_of d k = Some v"
  by (metis map_of_eq_None_iff not_Some_eq set_map)

lemma load_manifest_dict:
  assumes "load_manifest data = Inr manifest"
  shows "data = JObj manifest"
  using assms
  by (cases data)
     (auto simp add: load_manifest_def split: sum.splits if_splits json.splits)

lemma load_manifest_valid:
  assumes "load_manifest (JObj d) = Inr manifest"
  shows "\<forall>k \<in> set required. k \<in> set (map fst d)"
    and "\<exists>files. map_of d ''canonical_files'' = Some (JArr files) \<and> files \<noteq> []
           \<and> list_all nonblank_str files"
    and "\<exists>m. map_of d ''pr_map'' = Some (JObj m)"
proof -
  from assms have nomiss: "filter (\<lambda>k. k \<notin> set (map fst d)) required = []"
    by (auto simp add: load_manifest_def missing_keys_dict split: if_splits)
  then show keys: "\<forall>k \<in> set required. k \<in> set (map fst d)"
    by (simp add: filter_empty_conv)
  then obtain cf pm where cf: "map_of d ''canonical_files'' = Some cf"
      and pm: "map_of d ''pr_map'' = Some pm"
    using map_of_present [of "''canonical_files''" d] map_of_present [of "''pr_map''" d]
    by (auto simp add: required_def)
  from assms nomiss cf show "\<exists>files. map_of d ''canonical_files'' = Some (JArr files) \<and> files \<noteq> []
           \<and> list_all nonblank_str files"
    by (cases cf) (auto simp add: load_manifest_def missing_keys_dict dict_get_def split: if_splits)
  from assms nomiss cf pm show "\<exists>m. map_of d ''pr_map'' = Some (JObj m)"
    by (cases cf; cases pm)
       (auto simp add: load_manifest_def missing_keys_dict dict_get_def split: if_splits)
qed

lemma generate_entries_total:
  "generate_entries H repr (\<lambda>p. Inr (content p)) files acc =
     Inr (acc @ map (\<lambda>f. JObj [(''path'', JStr (py_str repr f)),
                                (''sha256'', JStr (sha256_normalized_text H (content (py_str repr f))))])
                 files)"
  by (induction files arbitrary: acc) (auto simp add: Let_def)

text \<open>
  Claim C1.  For a manifest that passed validation and a loader that returns a fixed
  text for every path, \<open>generate_spec_lock\<close> returns a lock record, and
  \<open>verify_spec_lock\<close> on that record with the same loader returns \<open>ok = True\<close> and no
  mismatch.
\<close>

theorem generate_then_verify_ok:
  assumes "load_manifest data = Inr manifest"
  shows "\<exists>lock.
           generate_spec_lock sha256_hex repr utc_now manifest (\<lambda>p. Inr (content p))
             generated_at generator_name generator_version = Inr lock
           \<and> snd (verify_spec_lock sha256_hex repr lock (\<lambda>p. Inr (content p)))
               = Inr \<lparr>ok = True, mismatches = []\<rparr>"
proof -
  have data: "data = JObj manifest" using assms by (rule load_manifest_dict)
  from load_manifest_valid [OF assms [unfolded data]]
  obtain files where files: "map_of manifest ''canonical_files'' = Some (JArr files)"
    and keys: "\<forall>k \<in> set required. k \<in> set (map fst manifest)"
    by blast
  obtain epic infra_repo infra_sha where vals:
    "map_of manifest ''epic'' = Some epic" "map_of manifest ''infra_repo'' = Some infra_repo"
    "map_of manifest ''infra_sha'' = Some infra_sha"
    using keys map_of_present [of "''epic''" manifest] map_of_present [of "''infra_repo''" manifest]
      map_of_present [of "''infra_sha''" manifest]
    by (auto simp add: required_def)
  define ds where "ds = map (\<lambda>f. [(''path'', JStr (py_str repr f)),
       (''sha256'', JStr (sha256_normalized_text sha256_hex (content (py_str repr f))))]) files"
  define lock where "lock =
     [(''schema_version'', JInt 1),
      (''epic'', JStr (py_str repr epic)),
      (''generated_at'', JStr (case generated_at of None \<Rightarrow> utc_now | Some g \<Rightarrow> g)),
      (''infra_repo'', JStr (py_str repr infra_repo)),
      (''infra_sha'', JStr (py_str repr infra_sha)),
      (''canonical_files'', JArr (map JObj ds)),
      (''generator'', JObj [(''name'', JStr generator_name), (''version'', JStr generator_version)])]"
  have gen: "generate_spec_lock sha256_hex repr utc_now manifest (\<lambda>p. Inr (content p))
             generated_at generator_name generator_version = Inr lock"
    using files vals
    by (simp add: generate_spec_lock_def dict_item_def generate_entries_total lock_def ds_def
          Let_def comp_def)
  have nomis: "concat (map (spec_entry_mismatches sha256_hex repr (\<lambda>p. Inr (content p))) ds) = []"
    by (simp add: ds_def spec_entry_mismatches_def spec_entry_path_def dict_get_def comp_def)
  have "verify_entries sha256_hex repr (\<lambda>p. Inr (content p)) (map JObj ds) [] [] =
          (map (spec_entry_path repr) ds, Inr [])"
    using verify_entries_spec [of ds "\<lambda>p. Inr (content p)" repr sha256_hex "[]" "[]"] nomis
    by simp
  then have "snd (verify_spec_lock sha256_hex repr lock (\<lambda>p. Inr (content p)))
               = Inr \<lparr>ok = True, mismatches = []\<rparr>"
    by (simp add: verify_spec_lock_def dict_get_def lock_def)
  with gen show ?thesis by blast
qed


lemma sublist_append_left: "sublist k ys \<Longrightarrow> sublist k (xs @ ys)"
  unfolding sublist_def by (metis append.assoc)

lemma sublist_py_join: "k \<in> set ks \<Longrightarrow> sublist k (py_join sep ks)"
proof (induction sep ks rule: py_join.induct)
  case (1 sep)
  then show ?case by simp
next
  case (2 sep x)
  then show ?case by simp
next
  case (3 sep x y ys)
  show ?case
  proof (cases "k = x")
    case True
    then show ?thesis by simp
  next
    case False
    with 3 have "sublist k (py_join sep (y # ys))" by simp
    then have "sublist k ((x @ sep) @ py_join sep (y # ys))"
      by (rule sublist_append_left)
    then show ?thesis by simp
  qed
qed

lemma nonblank_str_iff:
  "nonblank_str v \<longleftrightarrow> (\<exists>s. v = JStr s \<and> (\<exists>c \<in> set s. \<not> py_isspace c))"
  by (cases v) (auto simp add: py_strip_empty_iff)

text \<open>
  Claim C6.  When required keys are missing from the mapping, validation fails with a
  \<open>ValueError\<close> whose message lists all of them, so every missing key occurs in it.
  Validation also fails when \<open>canonical_files\<close> is present and is not a non-empty
  list of strings that each have a non-whitespace character, and when \<open>pr_map\<close> is
  present and is not a dict.
\<close>

theorem load_manifest_rejects:
  "(filter (\<lambda>k. k \<notin> set (map fst d)) required \<noteq> [] \<longrightarrow>
      load_manifest (JObj d) =
        Inl (Raise ValueError
              (''Manifest missing required keys: ''
               @ py_join '', '' (filter (\<lambda>k. k \<notin> set (map fst d)) required)))
      \<and> (\<forall>k \<in> set required. k \<notin> set (map fst d) \<longrightarrow>
            sublist k (''Manifest missing required keys: ''
                       @ py_join '', '' (filter (\<lambda>k. k \<notin> set (map fst d)) required))))
   \<and> (\<forall>v. map_of d ''canonical_files'' = Some v
          \<and> (\<forall>files. v = JArr files \<longrightarrow>
                files = []
                \<or> (\<exists>x \<in> set files. \<forall>s. x = JStr s \<longrightarrow> (\<forall>c \<in> set s. py_isspace c)))
          \<longrightarrow> isl (load_manifest (JObj d)))
   \<and> (\<forall>v. map_of d ''pr_map'' = Some v \<and> (\<forall>m. v \<noteq> JObj m)
          \<longrightarrow> isl (load_manifest (JObj d)))"
proof (intro conjI impI allI ballI)
  assume "filter (\<lambda>k. k \<notin> set (map fst d)) required \<noteq> []"
  then show "load_manifest (JObj d) =
        Inl (Raise ValueError
              (''Manifest missing required keys: ''
               @ py_join '', '' (filter (\<lambda>k. k \<notin> set (map fst d)) required)))"
    by (simp add: load_manifest_def missing_keys_dict)
next
  fix k
  assume "k \<in> set required" "k \<notin> set (map fst d)"
  then have "k \<in> set (filter (\<lambda>k. k \<notin> set (map fst d)) required)" by simp
  then have "sublist k (py_join '', '' (filter (\<lambda>k. k \<notin> set (map fst d)) required))"
    by (rule sublist_py_join)
  then show "sublist k (''Manifest missing required keys: ''
                       @ py_join '', '' (filter (\<lambda>k. k \<notin> set (map fst d)) required))"
    by (rule sublist_append_left)
next
  fix v
  assume a: "map_of d ''canonical_files'' = Some v
          \<and> (\<forall>files. v = JArr files \<longrightarrow>
                files = []
                \<or> (\<exists>x \<in> set files. \<forall>s. x = JStr s \<longrightarrow> (\<forall>c \<in> set s. py_isspace c)))"
  show "isl (load_manifest (JObj d))"
  proof (rule ccontr)
    assume "\<not> isl (load_manifest (JObj d))"
    then obtain manifest where "load_manifest (JObj d) = Inr manifest"
      by (cases "load_manifest (JObj d)") auto
    from load_manifest_valid(2) [OF this] a
    obtain files where "v = JArr files" "files \<noteq> []" "list_all nonblank_str files" by auto
    with a show False by (auto simp add: list_all_iff nonblank_str_iff)
  qed
next
  fix v
  assume a: "map_of d ''pr_map'' = Some v \<and> (\<forall>m. v \<noteq> JObj m)"
  show "isl (load_manifest (JObj d))"
  proof (rule ccontr)
    assume "\<not> isl (load_manifest (JObj d))"
    then obtain manifest where "load_manifest (JObj d) = Inr manifest"
      by (cases "load_manifest (JObj d)") auto
    from load_manifest_valid(3) [OF this] a show False by auto
  qed
qed

theorem generate_then_verify_ok_witness:
  "load_manifest
     (JObj [(''epic'', JStr ''E1''), (''infra_repo'', JStr ''o/r''), (''infra_sha'', JStr ''abc''),
            (''pr_map'', JObj []), (''canonical_files'', JArr [JStr ''spec/a.md'', JStr ''spec/b.md''])])
   = Inr [(''epic'', JStr ''E1''), (''infra_repo'', JStr ''o/r''), (''infra_sha'', JStr ''abc''),
          (''pr_map'', JObj []), (''canonical_files'', JArr [JStr ''spec/a.md'', JStr ''spec/b.md''])]
   \<and> (\<exists>lock.
         generate_spec_lock (\<lambda>bs. replicate (length bs) (CHR ''x'')) (\<lambda>v. ''?'') ''2024-01-01T00:00:00Z''
           [(''epic'', JStr ''E1''), (''infra_repo'', JStr ''o/r''), (''infra_sha'', JStr ''abc''),
            (''pr_map'', JObj []), (''canonical_files'', JArr [JStr ''spec/a.md'', JStr ''spec/b.md''])]
           (\<lambda>p. Inr (if p = ''spec/a.md'' then ''X'' else ''YY''))
           None ''scaffold_pr_packets.py'' ''dev'' = Inr lock
         \<and> snd (verify_spec_lock (\<lambda>bs. replicate (length bs) (CHR ''x'')) (\<lambda>v. ''?'') lock
                  (\<lambda>p. Inr (if p = ''spec/a.md'' then ''X'' else ''YY'')))
             = Inr \<lparr>ok = True, mismatches = []\<rparr>)"
proof -
  let ?m = "[(''epic'', JStr ''E1''), (''infra_repo'', JStr ''o/r''), (''infra_sha'', JStr ''abc''),
          (''pr_map'', JObj []), (''canonical_files'', JArr [JStr ''spec/a.md'', JStr ''spec/b.md''])]"
  have valid: "load_manifest (JObj ?m) = Inr ?m"
    by (simp add: load_manifest_def required_def dict_get_def py_strip_def py_rstrip_def
          py_lstrip_def py_isspace_def)
  show ?thesis
    by (rule conjI [OF valid
          generate_then_verify_ok [OF valid,
            where sha256_hex = "\<lambda>bs. replicate (length bs) (CHR ''x'')" and repr = "\<lambda>v. ''?''"
              and utc_now = "''2024-01-01T00:00:00Z''"
              and content = "\<lambda>p. if p = ''spec/a.md'' then ''X'' else ''YY''"
              and generated_at = None and generator_name = "''scaffold_pr_packets.py''"
              and generator_version = "''dev''"]])
qed

theorem load_manifest_rejects_witness:
  "load_manifest (JObj [(''epic'', JStr ''E1''), (''pr_map'', JObj []), (''infra_sha'', JStr ''abc'')])
     = Inl (Raise ValueError ''Manifest missing required keys: infra_repo, canonical_files'')
   \<and> sublist ''infra_repo'' ''Manifest missing required keys: infra_repo, canonical_files''
   \<and> sublist ''canonical_files'' ''Manifest missing required keys: infra_repo, canonical_files''
   \<and> isl (load_manifest
            (JObj [(''epic'', JStr ''E1''), (''infra_repo'', JStr ''o/r''), (''infra_sha'', JStr ''abc''),
                   (''pr_map'', JObj []), (''canonical_files'', JArr [JStr ''a.md'', JStr ''  ''])]))
   \<and> isl (load_manifest
            (JObj [(''epic'', JStr ''E1''), (''infra_repo'', JStr ''o/r''), (''infra_sha'', JStr ''abc''),
                   (''pr_map'', JArr []), (''canonical_files'', JArr [JStr ''a.md''])]))"
proof -
  let ?d1 = "[(''epic'', JStr ''E1''), (''pr_map'', JObj []), (''infra_sha'', JStr ''abc'')]"
  let ?d2 = "[(''epic'', JStr ''E1''), (''infra_repo'', JStr ''o/r''), (''infra_sha'', JStr ''abc''),
                   (''pr_map'', JObj []), (''canonical_files'', JArr [JStr ''a.md'', JStr ''  ''])]"
  let ?d3 = "[(''epic'', JStr ''E1''), (''infra_repo'', JStr ''o/r''), (''infra_sha'', JStr ''abc''),
                   (''pr_map'', JArr []), (''canonical_files'', JArr [JStr ''a.md''])]"
  have m1: "filter (\<lambda>k. k \<notin> set (map fst ?d1)) required = [''infra_repo'', ''canonical_files'']"
    by (simp add: required_def)
  have a: "load_manifest (JObj ?d1)
     = Inl (Raise ValueError ''Manifest missing required keys: infra_repo, canonical_files'')
   \<and> sublist ''infra_repo'' ''Manifest missing required keys: infra_repo, canonical_files''
   \<and> sublist ''canonical_files'' ''Manifest missing required keys: infra_repo, canonical_files''"
    using load_manifest_rejects [of ?d1] unfolding m1 by (simp add: required_def)
  have h2: "map_of ?d2 ''canonical_files'' = Some (JArr [JStr ''a.md'', JStr ''  ''])
        \<and> (\<forall>files. JArr [JStr ''a.md'', JStr ''  ''] = JArr files \<longrightarrow>
                files = []
                \<or> (\<exists>x \<in> set files. \<forall>s. x = JStr s \<longrightarrow> (\<forall>c \<in> set s. py_isspace c)))"
    by (simp add: py_isspace_def)
  have b: "isl (load_manifest (JObj ?d2))"
    using load_manifest_rejects [of ?d2] h2 by blast
  have h3: "map_of ?d3 ''pr_map'' = Some (JArr []) \<and> (\<forall>m. JArr [] \<noteq> JObj m)"
    by simp
  have c: "isl (load_manifest (JObj ?d3))"
    using load_manifest_rejects [of ?d3] h3 by blast
  from a b c show ?thesis by blast
qed

section \<open>Properties of the content loader\<close>

lemma universal_newlines_normalize: "universal_newlines t = normalize_newlines t"
  by (induction t rule: universal_newlines.induct) (simp_all add: normalize_newlines_Nil normalize_newlines_Cons)

lemma universal_newlines_lines: "universal_newlines t = convert_line_endings [LF] t"
  by (simp only: universal_newlines_normalize normalize_text_lines convert_line_endings_def)

lemma universal_newlines_clean: "CR \<notin> set t \<Longrightarrow> universal_newlines t = t"
  by (simp add: universal_newlines_normalize normalize_clean)

text \<open>
  Claim C7, as the code has it.  When a local root is supplied (a non-empty
  \<open>infra_docs_root\<close>), the loader attempts neither network strategy.  If the file is
  absent under the root, retrieval fails and nothing was attempted; under a valid root
  the failure is the \<open>FileNotFoundError\<close> of \<open>read_local_canonical_text\<close>.  If the
  file is present under a valid root, the local read is the only attempt, and the
  result is the stored text with every line ending written as LF: a text without CR
  is returned as it is stored, and an exception raised by the read is the result.
\<close>

theorem load_canonical_text_local_only:
  assumes "infra_docs_root = Some root" and "root \<noteq> []"
  shows "filter is_network (fst (load_canonical_text w infra_repo infra_sha relpath infra_docs_root)) = []
    \<and> (\<not> path_exists w (path_join w root relpath) \<longrightarrow>
          fst (load_canonical_text w infra_repo infra_sha relpath infra_docs_root) = []
          \<and> isl (snd (load_canonical_text w infra_repo infra_sha relpath infra_docs_root)))
    \<and> (path_exists w root \<and> path_is_dir w root \<and> \<not> path_exists w (path_join w root relpath) \<longrightarrow>
          load_canonical_text w infra_repo infra_sha relpath infra_docs_root =
            ([], Inl (Raise FileNotFoundError
                       (''Canonical file not found at '' @ path_join w root relpath))))
    \<and> (path_exists w root \<and> path_is_dir w root \<and> path_exists w (path_join w root relpath) \<longrightarrow>
          (\<forall>stored. file_text w (path_join w root relpath) = Inr stored \<longrightarrow>
             load_canonical_text w infra_repo infra_sha relpath infra_docs_root =
               ([LocalRead (path_join w root relpath)], Inr (convert_line_endings [LF] stored))
             \<and> (CR \<notin> set stored \<longrightarrow>
                  load_canonical_text w infra_repo infra_sha relpath infra_docs_root =
                    ([LocalRead (path_join w root relpath)], Inr stored)))
          \<and> (\<forall>e. file_text w (path_join w root relpath) = Inl e \<longrightarrow>
               load_canonical_text w infra_repo infra_sha relpath infra_docs_root =
                 ([LocalRead (path_join w root relpath)], Inl e)))"
  using assms
  by (auto simp add: load_canonical_text_def read_local_canonical_text_def Let_def read_text_def
        universal_newlines_lines [symmetric] universal_newlines_clean)

theorem load_canonical_text_local_only_witness:
  "load_canonical_text empty_docs_world ''o/r'' ''abc'' ''a.md'' (Some ''/docs'')
     = ([], Inl (Raise FileNotFoundError ''Canonical file not found at /docs/a.md''))
   \<and> load_canonical_text (docs_world (Inr [CHR ''a'', CR, LF, CHR ''b'', CR, CHR ''c'', LF]))
         ''o/r'' ''abc'' ''a.md'' (Some ''/docs'')
     = ([LocalRead ''/docs/a.md''], Inr [CHR ''a'', LF, CHR ''b'', LF, CHR ''c'', LF])
   \<and> load_canonical_text (docs_world (Inr [CHR ''a'', LF, CHR ''b'', LF]))
         ''o/r'' ''abc'' ''a.md'' (Some ''/docs'')
     = ([LocalRead ''/docs/a.md''], Inr [CHR ''a'', LF, CHR ''b'', LF])
   \<and> load_canonical_text (docs_world (Inl (Raise OtherException ''Is a directory'')))
         ''o/r'' ''abc'' ''a.md'' (Some ''/docs'')
     = ([LocalRead ''/docs/a.md''], Inl (Raise OtherException ''Is a directory''))"
proof -
  let ?w0 = "empty_docs_world"
  let ?w1 = "docs_world (Inr [CHR ''a'', CR, LF, CHR ''b'', CR, CHR ''c'', LF])"
  let ?w2 = "docs_world (Inr [CHR ''a'', LF, CHR ''b'', LF])"
  let ?w3 = "docs_world (Inl (Raise OtherException ''Is a directory''))"
  have h1: "Some ''/docs'' = Some ''/docs''" and h2: "''/docs'' \<noteq> []" by simp_all
  have a0: "path_exists ?w0 ''/docs'' \<and> path_is_dir ?w0 ''/docs''
            \<and> \<not> path_exists ?w0 (path_join ?w0 ''/docs'' ''a.md'')"
    by (simp add: empty_docs_world_def)
  have p: "path_join (docs_world x) ''/docs'' ''a.md'' = ''/docs/a.md''" for x
    by (simp add: docs_world_def)
  have a: "path_exists (docs_world x) ''/docs'' \<and> path_is_dir (docs_world x) ''/docs''
           \<and> path_exists (docs_world x) (path_join (docs_world x) ''/docs'' ''a.md'')" for x
    by (simp add: docs_world_def)
  have f: "file_text (docs_world x) (path_join (docs_world x) ''/docs'' ''a.md'') = x" for x
    by (simp add: docs_world_def)
  from load_canonical_text_local_only [OF h1 h2, of ?w0 "''o/r''" "''abc''" "''a.md''"] a0
  have c0: "load_canonical_text ?w0 ''o/r'' ''abc'' ''a.md'' (Some ''/docs'')
     = ([], Inl (Raise FileNotFoundError
                  (''Canonical file not found at '' @ path_join ?w0 ''/docs'' ''a.md'')))"
    by blast
  from load_canonical_text_local_only [OF h1 h2, of ?w1 "''o/r''" "''abc''" "''a.md''"] a f
  have c1: "load_canonical_text ?w1 ''o/r'' ''abc'' ''a.md'' (Some ''/docs'')
     = ([LocalRead (path_join ?w1 ''/docs'' ''a.md'')],
        Inr (convert_line_endings [LF] [CHR ''a'', CR, LF, CHR ''b'', CR, CHR ''c'', LF]))"
    by blast
  have clean: "CR \<notin> set [CHR ''a'', LF, CHR ''b'', LF]" by simp
  from load_canonical_text_local_only [OF h1 h2, of ?w2 "''o/r''" "''abc''" "''a.md''"] a f clean
  have c2: "load_canonical_text ?w2 ''o/r'' ''abc'' ''a.md'' (Some ''/docs'')
     = ([LocalRead (path_join ?w2 ''/docs'' ''a.md'')], Inr [CHR ''a'', LF, CHR ''b'', LF])"
    by blast
  from load_canonical_text_local_only [OF h1 h2, of ?w3 "''o/r''" "''abc''" "''a.md''"] a f
  have c3: "load_canonical_text ?w3 ''o/r'' ''abc'' ''a.md'' (Some ''/docs'')
     = ([LocalRead (path_join ?w3 ''/docs'' ''a.md'')], Inl (Raise OtherException ''Is a directory''))"
    by blast
  from c0 c1 c2 c3 show ?thesis
    by (simp add: p empty_docs_world_def convert_line_endings_def)
qed

text \<open>
  The text is not always returned as it is stored: for a file whose lines end in
  CR LF, the loader returns them ending in LF.
\<close>

theorem load_canonical_text_verbatim_counterexample:
  "load_canonical_text (docs_world (Inr [CHR ''a'', CR, LF, CHR ''b'', CR, LF]))
      ''o/r'' ''abc'' ''a.md'' (Some ''/docs'')
     = ([LocalRead ''/docs/a.md''], Inr [CHR ''a'', LF, CHR ''b'', LF])
   \<and> file_text (docs_world (Inr [CHR ''a'', CR, LF, CHR ''b'', CR, LF])) ''/docs/a.md''
     = Inr [CHR ''a'', CR, LF, CHR ''b'', CR, LF]
   \<and> snd (load_canonical_text (docs_world (Inr [CHR ''a'', CR, LF, CHR ''b'', CR, LF]))
           ''o/r'' ''abc'' ''a.md'' (Some ''/docs''))
     \<noteq> file_text (docs_world (Inr [CHR ''a'', CR, LF, CHR ''b'', CR, LF])) ''/docs/a.md''"
  by (simp add: load_canonical_text_def read_local_canonical_text_def read_text_def docs_world_def)

section \<open>Properties of the generated block upserter\<close>

lemma prefix_append_long:
  "length x \<le> length t \<Longrightarrow> prefix x (t @ v) \<longleftrightarrow> prefix x t"
  by (metis prefix_append prefix_length_le prefix_order.antisym prefix_prefix append_eq_conv_conj
        append.right_neutral length_append le_add1 prefixI take_all_iff take_is_prefix)

lemma find_first_prefix: "prefix x s \<Longrightarrow> find_first x s = Some 0"
  by (cases s) auto

lemma first_at_find:
  "find_first x (u @ x @ v) = Some (length u) \<longleftrightarrow> first_at x u"
proof (induction u)
  case Nil
  show ?case by (simp add: find_first_prefix)
next
  case (Cons c u)
  have "prefix x (c # u @ x @ v) \<longleftrightarrow> prefix x (c # u @ x)"
    using prefix_append_long [of x "c # u @ x" v] by simp
  with Cons show ?case by auto
qed

lemma find_first_SomeD:
  "find_first x s = Some j \<Longrightarrow> \<exists>u v. s = u @ x @ v \<and> length u = j \<and> first_at x u"
proof (induction s arbitrary: j)
  case Nil
  then show ?case by (auto split: if_splits)
next
  case (Cons c s)
  show ?case
  proof (cases "prefix x (c # s)")
    case True
    with Cons.prems have j: "j = 0" by simp
    from True obtain v where "c # s = x @ v" by (auto simp: prefix_def)
    with j show ?thesis by (intro exI [of _ "[]"] exI [of _ v]) auto
  next
    case False
    with Cons.prems obtain j' where j': "find_first x s = Some j'" "j = Suc j'" by auto
    from Cons.IH [OF j'(1)] obtain u v where uv: "s = u @ x @ v" "length u = j'" "first_at x u"
      by blast
    have "\<not> prefix x (c # u @ x)"
      using False uv(1) prefix_append_long [of x "c # u @ x" v] by simp
    with uv j'(2) show ?thesis
      by (intro exI [of _ "c # u"] exI [of _ v]) auto
  qed
qed

lemma find_first_None: "find_first x s = None \<longleftrightarrow> \<not> sublist x s"
  by (induction s) (auto simp add: sublist_Cons_right)


lemma match_here_at_region:
  assumes "first_at e mid"
  shows "match_here b e (b @ mid @ e @ post) = Some (length b + length mid + length e)"
  using assms first_at_find [of e mid post] by (simp add: match_here_def)

lemma pattern_search_region:
  assumes "b \<noteq> []" and "first_at b before" and "first_at e mid"
  shows "pattern_search b e (before @ b @ mid @ e @ post) = Some (before, b @ mid @ e, post)"
  using assms(2)
proof (induction before)
  case Nil
  obtain c cs where s: "b @ mid @ e @ post = c # cs"
    using assms(1) by (cases "b @ mid @ e @ post") auto
  have "pattern_search b e (c # cs) = Some ([], take (length b + length mid + length e) (c # cs),
          drop (length b + length mid + length e) (c # cs))"
    using match_here_at_region [OF assms(3), of b post] by (simp add: s)
  then show ?case by (simp add: s [symmetric])
next
  case (Cons c before)
  have "\<not> prefix b (c # before @ b)" and fa: "first_at b before"
    using Cons.prems by simp_all
  then have "\<not> prefix b (c # before @ b @ mid @ e @ post)"
    using prefix_append_long [of b "c # before @ b" "mid @ e @ post"] by simp
  then have "match_here b e (c # before @ b @ mid @ e @ post) = None"
    by (simp add: match_here_def)
  with Cons.IH [OF fa] show ?case by simp
qed

lemma pattern_search_SomeD:
  assumes "pattern_search b e s = Some (before, matched, after)" and "b \<noteq> []"
  shows "\<exists>mid. s = before @ b @ mid @ e @ after \<and> matched = b @ mid @ e
           \<and> first_at b before \<and> first_at e mid"
  using assms(1)
proof (induction s arbitrary: before)
  case Nil
  then show ?case using assms(2) by (simp add: match_here_def split: option.splits)
next
  case (Cons c cs)
  show ?case
  proof (cases "match_here b e (c # cs)")
    case (Some n)
    with Cons.prems have res: "before = []" "matched = take n (c # cs)" "after = drop n (c # cs)"
      by simp_all
    from Some have pre: "prefix b (c # cs)"
      by (simp add: match_here_def split: if_splits)
    with Some obtain j where j: "find_first e (drop (length b) (c # cs)) = Some j"
      "n = length b + j + length e"
      by (auto simp add: match_here_def)
    from find_first_SomeD [OF j(1)] obtain u v where uv:
      "drop (length b) (c # cs) = u @ e @ v" "length u = j" "first_at e u" by blast
    from pre have "c # cs = b @ drop (length b) (c # cs)"
      by (metis append_eq_conv_conj prefixE)
    with uv(1) have s: "c # cs = b @ u @ e @ v" by simp
    have "take n (b @ u @ e @ v) = b @ u @ e" "drop n (b @ u @ e @ v) = v"
      using j(2) uv(2) by simp_all
    with res s uv(3) show ?thesis
      by (intro exI [of _ u]) simp
  next
    case None
    with Cons.prems obtain before' where rec: "pattern_search b e cs = Some (before', matched, after)"
      and before: "before = c # before'"
      by (auto split: option.splits)
    from Cons.IH [OF rec] obtain mid where mid: "cs = before' @ b @ mid @ e @ after"
      "matched = b @ mid @ e" "first_at b before'" "first_at e mid" by blast
    have "\<not> prefix b (c # before' @ b)"
    proof
      assume p: "prefix b (c # before' @ b)"
      then have p': "prefix b (c # cs)"
        using mid(1) prefix_append_long [of b "c # before' @ b" "mid @ e @ after"] by simp
      have "drop (length b) ((c # before' @ b) @ (mid @ e @ after))
              = drop (length b) (c # before' @ b) @ (mid @ e @ after)"
        by (subst drop_append) simp
      then have "drop (length b) (c # cs) = drop (length b) (c # before' @ b) @ mid @ e @ after"
        using mid(1) by simp
      then have "sublist e (drop (length b) (c # cs))"
        by (metis sublist_appendI append.assoc)
      then obtain j where "find_first e (drop (length b) (c # cs)) = Some j"
        using find_first_None [of e "drop (length b) (c # cs)"] by auto
      with p' None show False by (simp add: match_here_def)
    qed
    with mid before show ?thesis by (intro exI [of _ mid]) simp
  qed
qed

lemma prefix_overlap:
  assumes "prefix x (w @ x)" and "x = c # x'" and "c \<notin> set x'" and "w \<noteq> []"
  shows "prefix x w"
proof -
  from assms(1) have "prefix x w \<or> (\<exists>us. x = w @ us \<and> prefix us x)"
    by (simp add: prefix_append)
  then show ?thesis
  proof
    assume "prefix x w" then show ?thesis .
  next
    assume "\<exists>us. x = w @ us \<and> prefix us x"
    then obtain us where us: "x = w @ us" "prefix us x" by blast
    show ?thesis
    proof (cases us)
      case Nil
      with us show ?thesis by simp
    next
      case (Cons a us')
      with us(2) assms(2) have "a = c" by simp
      moreover from assms(4) us(1) assms(2) have "set us \<subseteq> set x'"
        by (cases w) auto
      ultimately show ?thesis using Cons assms(3) by auto
    qed
  qed
qed

lemma first_at_no_sublist:
  assumes "x = c # x'" and "c \<notin> set x'" and "\<not> sublist x u"
  shows "first_at x u"
  using assms(3)
proof (induction u)
  case Nil
  then show ?case by simp
next
  case (Cons a u)
  have "\<not> prefix x (a # u @ x)"
  proof
    assume "prefix x (a # u @ x)"
    then have "prefix x ((a # u) @ x)" by simp
    from prefix_overlap [OF this assms(1,2)] have "prefix x (a # u)" by simp
    then show False using Cons.prems by auto
  qed
  moreover have "\<not> sublist x u" using Cons.prems by (simp add: sublist_Cons_right)
  ultimately show ?case using Cons.IH by simp
qed

lemma tokenize_plain:
  "BACKSLASH \<notin> set t \<Longrightarrow> tokenize_template t = map Lit t"
  by (induction t rule: tokenize_template.induct) auto

lemma expand_tokens_plain: "expand_tokens py312 matched (map Lit t) = Inr t"
  by (induction t) auto

lemma expand_template_plain:
  "BACKSLASH \<notin> set t \<Longrightarrow> expand_template py312 t matched = Inr t"
  by (simp add: expand_template_def tokenize_plain expand_tokens_plain)

lemma py_rstrip_decomp: "\<exists>ws. s = py_rstrip s @ ws"
proof -
  have "rev s = takeWhile py_isspace (rev s) @ dropWhile py_isspace (rev s)" by simp
  then have "s = rev (dropWhile py_isspace (rev s)) @ rev (takeWhile py_isspace (rev s))"
    by (metis rev_append rev_rev_ident)
  then show ?thesis unfolding py_rstrip_def by blast
qed

lemma pattern_search_blank:
  assumes "\<forall>c \<in> set s. py_isspace c" and "b = CHR ''<'' # b'"
  shows "pattern_search b e s = None"
proof (rule ccontr)
  assume "pattern_search b e s \<noteq> None"
  then obtain before matched after where "pattern_search b e s = Some (before, matched, after)"
    by (cases "pattern_search b e s") auto
  from pattern_search_SomeD [OF this] assms(2) obtain mid where "s = before @ b @ mid @ e @ after"
    by blast
  with assms(2) have "CHR ''<'' \<in> set s" by simp
  with assms(1) have "py_isspace (CHR ''<'')" by blast
  then show False by (simp add: py_isspace_def)
qed

text \<open>
  Claim C9, as the code has it.  For an empty or whitespace-only document the result is
  \<open>rendered_block\<close> followed by one line feed, for every tag and block.
\<close>

theorem upsert_blank_document:
  assumes "\<forall>c \<in> set document_text. py_isspace c"
  shows "upsert_generated_block py312 document_text tag rendered_block = Inr (rendered_block @ [LF])"
proof -
  have "pattern_search (''<!-- BEGIN GENERATED: '' @ tag @ '' -->'')
          (''<!-- END GENERATED: '' @ tag @ '' -->'') document_text = None"
    by (rule pattern_search_blank [OF assms]) simp
  moreover have "py_strip document_text = []"
    using assms by (simp add: py_strip_empty_iff)
  ultimately show ?thesis by (simp add: upsert_generated_block_def)
qed

theorem upsert_blank_document_witness:
  "py_isspace (CHR '' '') \<and> py_isspace LF \<and> py_isspace (CHR 0x09)
   \<and> upsert_generated_block True [CHR '' '', LF, CHR 0x09] ''t'' ''block'' = Inr (''block'' @ [LF])"
proof -
  have sp: "py_isspace (CHR '' '') \<and> py_isspace LF \<and> py_isspace (CHR 0x09)"
    by (simp add: py_isspace_def)
  then have h: "\<forall>c \<in> set [CHR '' '', LF, CHR 0x09]. py_isspace c"
    by simp
  from sp upsert_blank_document [OF h, of True "''t''" "''block''"] show ?thesis by blast
qed

text \<open>
  The result is not \<open>rendered_block\<close> alone: the empty document and the block
  \<open>block\<close> give \<open>block\<close> with a line feed after it.
\<close>

theorem upsert_blank_document_counterexample:
  "upsert_generated_block True [] ''t'' ''block'' \<noteq> Inr ''block''
   \<and> upsert_generated_block False [] ''t'' ''block'' \<noteq> Inr ''block''"
  by (simp add: upsert_generated_block_def match_here_def py_strip_def py_rstrip_def py_lstrip_def)

text \<open>
  Claim C5.  The region is replaced through \<open>pattern.sub\<close>, which reads
  \<open>rendered_block\<close> as a replacement template.  A block that holds a backslash is
  therefore not inserted as it is: in a block with the Windows-style path
  \<open>docs\notes.md\<close> the two characters \<open>\n\<close> become a line feed, on every
  interpreter version.  The other two branches of \<open>upsert_generated_block\<close> insert the
  block unchanged.
\<close>

theorem upsert_backslash_block:
  "upsert_generated_block py312
     ''intro <!-- BEGIN GENERATED: t -->old<!-- END GENERATED: t --> outro'' ''t''
     (''docs'' @ [BACKSLASH] @ ''notes.md'')
   = Inr (''intro docs'' @ [LF] @ ''otes.md outro'')"
  by (simp add: upsert_generated_block_def match_here_def expand_template_def escape_char_def
        is_digit_def is_octdigit_def is_ascii_letter_def)

lemma upsert_at_region:
  assumes "begin_lit = ''<!-- BEGIN GENERATED: '' @ tag @ '' -->''"
    and "end_lit = ''<!-- END GENERATED: '' @ tag @ '' -->''"
    and "first_at begin_lit before" and "first_at end_lit mid"
    and "BACKSLASH \<notin> set rendered_block"
  shows "upsert_generated_block py312 (before @ begin_lit @ mid @ end_lit @ after) tag rendered_block
           = Inr (before @ rendered_block @ after)"
proof -
  have ne: "begin_lit \<noteq> []" using assms(1) by simp
  have "pattern_search begin_lit end_lit (before @ begin_lit @ mid @ end_lit @ after)
          = Some (before, begin_lit @ mid @ end_lit, after)"
    by (rule pattern_search_region [OF ne assms(3,4)])
  then show ?thesis
    using assms(5) unfolding upsert_generated_block_def Let_def assms(1,2) [symmetric]
    by (simp add: expand_template_plain)
qed

lemma snoc_last_clash:
  assumes "t @ [LF] = ps @ x" and "x \<noteq> []" and "last x \<noteq> LF"
  shows False
proof -
  from assms(2) obtain x' l where x: "x = x' @ [l]" by (cases x rule: rev_cases) auto
  with assms(1) have "t @ [LF] = (ps @ x') @ [l]" by simp
  then have "l = LF" using append1_eq_conv by blast
  with x assms(3) show False by simp
qed

lemma sublist_before_blank_lines:
  assumes "sublist x (r @ [LF, LF])" and "x \<noteq> []" and "last x \<noteq> LF"
  shows "sublist x r"
proof -
  from assms(1) obtain ps ss where d: "r @ [LF, LF] = ps @ x @ ss" by (auto simp: sublist_def)
  show ?thesis
  proof (cases ss rule: rev_cases)
    case Nil
    with d have "(r @ [LF]) @ [LF] = ps @ x" by simp
    from snoc_last_clash [OF this assms(2,3)] show ?thesis ..
  next
    case (snoc ss1 a)
    have "(r @ [LF]) @ [LF] = r @ [LF, LF]" by simp
    also note d
    also have "ps @ x @ ss = (ps @ x @ ss1) @ [a]" using snoc by simp
    finally have "(r @ [LF]) @ [LF] = (ps @ x @ ss1) @ [a]" .
    then have d1: "r @ [LF] = ps @ x @ ss1" using append1_eq_conv by blast
    show ?thesis
    proof (cases ss1 rule: rev_cases)
      case Nil
      with d1 have "r @ [LF] = ps @ x" by simp
      from snoc_last_clash [OF this assms(2,3)] show ?thesis ..
    next
      case (snoc ss2 a')
      have "ps @ x @ ss1 = (ps @ x @ ss2) @ [a']" using snoc by simp
      with d1 have "r @ [LF] = (ps @ x @ ss2) @ [a']" by (simp only:)
      then have "r = ps @ x @ ss2" using append1_eq_conv by blast
      then show ?thesis by (auto simp: sublist_def)
    qed
  qed
qed


text \<open>
  Claim C4, as the code has it.  Let the tag hold no \<open><\<close>, and let \<open>rendered_block\<close>
  be itself a region for that tag: the BEGIN sentinel, a body in which the END sentinel
  does not occur, and the END sentinel, with no backslash anywhere.  Let the document
  either hold no BEGIN sentinel for the tag or hold a complete region.  Then
  \<open>upsert_generated_block\<close> succeeds, and applying it again to its result gives the
  same result.
\<close>

theorem upsert_idempotent:
  assumes b: "begin_lit = ''<!-- BEGIN GENERATED: '' @ tag @ '' -->''"
    and e: "end_lit = ''<!-- END GENERATED: '' @ tag @ '' -->''"
    and tag: "CHR ''<'' \<notin> set tag"
    and block: "rendered_block = begin_lit @ body @ end_lit"
    and body: "\<not> sublist end_lit body"
    and nobs: "BACKSLASH \<notin> set rendered_block"
    and complete: "sublist begin_lit document_text \<longrightarrow>
                     pattern_search begin_lit end_lit document_text \<noteq> None"
  shows "\<exists>r. upsert_generated_block py312 document_text tag rendered_block = Inr r
             \<and> upsert_generated_block py312 r tag rendered_block = Inr r"
proof -
  have bne: "begin_lit \<noteq> []" using b by simp
  have fe: "first_at end_lit body"
  proof (rule first_at_no_sublist [OF _ _ body])
    show "end_lit = CHR ''<'' # (''!-- END GENERATED: '' @ tag @ '' -->'')" using e by simp
    show "CHR ''<'' \<notin> set (''!-- END GENERATED: '' @ tag @ '' -->'')" using tag by simp
  qed
  have fb: "first_at begin_lit u" if "\<not> sublist begin_lit u" for u
  proof (rule first_at_no_sublist [OF _ _ that])
    show "begin_lit = CHR ''<'' # (''!-- BEGIN GENERATED: '' @ tag @ '' -->'')" using b by simp
    show "CHR ''<'' \<notin> set (''!-- BEGIN GENERATED: '' @ tag @ '' -->'')" using tag by simp
  qed
  have again: "upsert_generated_block py312 (before @ rendered_block @ after) tag rendered_block
                 = Inr (before @ rendered_block @ after)"
    if "first_at begin_lit before" for before after
    using upsert_at_region [OF b e that fe nobs, where after = after] by (simp add: block)
  show ?thesis
  proof (cases "pattern_search begin_lit end_lit document_text")
    case (Some found)
    obtain before matched after where found: "found = (before, matched, after)"
      by (cases found) auto
    from pattern_search_SomeD [OF Some [unfolded found] bne] obtain mid where
      doc: "document_text = before @ begin_lit @ mid @ end_lit @ after"
      and fbefore: "first_at begin_lit before" and fmid: "first_at end_lit mid"
      by blast
    have "upsert_generated_block py312 document_text tag rendered_block
            = Inr (before @ rendered_block @ after)"
      unfolding doc by (rule upsert_at_region [OF b e fbefore fmid nobs])
    with again [OF fbefore] show ?thesis by blast
  next
    case None
    with complete have nosub: "\<not> sublist begin_lit document_text" by blast
    show ?thesis
    proof (cases "py_strip document_text = []")
      case True
      with None have "upsert_generated_block py312 document_text tag rendered_block
                        = Inr ([] @ rendered_block @ [LF])"
        unfolding upsert_generated_block_def Let_def b [symmetric] e [symmetric] by simp
      moreover have "first_at begin_lit []" by simp
      ultimately show ?thesis using again by blast
    next
      case False
      with None have first: "upsert_generated_block py312 document_text tag rendered_block
                        = Inr ((py_rstrip document_text @ [LF, LF]) @ rendered_block @ [LF])"
        unfolding upsert_generated_block_def Let_def b [symmetric] e [symmetric] by simp
      have "\<not> sublist begin_lit (py_rstrip document_text @ [LF, LF])"
      proof
        assume occ: "sublist begin_lit (py_rstrip document_text @ [LF, LF])"
        have "last begin_lit \<noteq> LF" using b by simp
        with occ bne have "sublist begin_lit (py_rstrip document_text)"
          by (rule sublist_before_blank_lines)
        moreover obtain ws where "document_text = py_rstrip document_text @ ws"
          using py_rstrip_decomp by blast
        ultimately have "sublist begin_lit document_text"
          by (metis sublist_append)
        with nosub show False ..
      qed
      from again [OF fb [OF this]] first show ?thesis by blast
    qed
  qed
qed

theorem upsert_idempotent_witness:
  "upsert_generated_block True
     ''a <!-- BEGIN GENERATED: t -->old<!-- END GENERATED: t --> z'' ''t''
     ''<!-- BEGIN GENERATED: t -->new<!-- END GENERATED: t -->''
     = Inr ''a <!-- BEGIN GENERATED: t -->new<!-- END GENERATED: t --> z''
   \<and> upsert_generated_block True
     ''a <!-- BEGIN GENERATED: t -->new<!-- END GENERATED: t --> z'' ''t''
     ''<!-- BEGIN GENERATED: t -->new<!-- END GENERATED: t -->''
     = Inr ''a <!-- BEGIN GENERATED: t -->new<!-- END GENERATED: t --> z''"
proof -
  let ?doc = "''a <!-- BEGIN GENERATED: t -->old<!-- END GENERATED: t --> z''"
  let ?b = "''<!-- BEGIN GENERATED: t -->''"
  let ?e = "''<!-- END GENERATED: t -->''"
  let ?block = "''<!-- BEGIN GENERATED: t -->new<!-- END GENERATED: t -->''"
  have h1: "?b = ''<!-- BEGIN GENERATED: '' @ ''t'' @ '' -->''" by simp
  have h2: "?e = ''<!-- END GENERATED: '' @ ''t'' @ '' -->''" by simp
  have h3: "CHR ''<'' \<notin> set ''t''" by simp
  have h4: "?block = ?b @ ''new'' @ ?e" by simp
  have h5: "\<not> sublist ?e ''new''"
    using sublist_length_le [of ?e "''new''"] by auto
  have h6: "BACKSLASH \<notin> set ?block" by simp
  have h7: "sublist ?b ?doc \<longrightarrow> pattern_search ?b ?e ?doc \<noteq> None"
    by (simp add: match_here_def del: sublist_code)
  from upsert_idempotent [OF h1 h2 h3 h4 h5 h6 h7, of True] obtain r where
    r: "upsert_generated_block True ?doc ''t'' ?block = Inr r"
       "upsert_generated_block True r ''t'' ?block = Inr r"
    by blast
  have first: "upsert_generated_block True ?doc ''t'' ?block
                 = Inr ''a <!-- BEGIN GENERATED: t -->new<!-- END GENERATED: t --> z''"
    by (simp add: upsert_generated_block_def match_here_def expand_template_plain)
  with r(1) have "r = ''a <!-- BEGIN GENERATED: t -->new<!-- END GENERATED: t --> z''" by simp
  with r(2) first show ?thesis by simp
qed

text \<open>
  Without those conditions the second call is not a no-op: a block that carries no
  sentinels is appended to the document \<open>x\<close> once by the first call and once more by
  the second.
\<close>

theorem upsert_idempotent_counterexample:
  "upsert_generated_block True ''x'' ''t'' ''B'' = Inr [CHR ''x'', LF, LF, CHR ''B'', LF]
   \<and> upsert_generated_block True [CHR ''x'', LF, LF, CHR ''B'', LF] ''t'' ''B''
       = Inr [CHR ''x'', LF, LF, CHR ''B'', LF, LF, CHR ''B'', LF]
   \<and> upsert_generated_block False ''x'' ''t'' ''B'' = Inr [CHR ''x'', LF, LF, CHR ''B'', LF]
   \<and> upsert_generated_block False [CHR ''x'', LF, LF, CHR ''B'', LF] ''t'' ''B''
       = Inr [CHR ''x'', LF, LF, CHR ''B'', LF, LF, CHR ''B'', LF]"
  by (simp add: upsert_generated_block_def match_here_def py_strip_def py_rstrip_def
        py_lstrip_def py_isspace_def)

end
